theory Spec2Isabelle
  imports Main "HOL-Library.Sublist"
begin

section \<open>Strings and errors\<close>

text \<open>
  A Go \<^verbatim>\<open>string\<close> is a sequence of bytes, as \<^typ>\<open>string\<close> is. The three functions of
  package \<^verbatim>\<open>strings\<close> that the error classifier calls are written out so that they run:
  \<^verbatim>\<open>HasPrefix\<close> and \<^verbatim>\<open>HasSuffix\<close> compare a slice of the right length, \<^verbatim>\<open>Index\<close> is the
  first position at which the substring starts (or \<open>-1\<close>), and \<^verbatim>\<open>Contains\<close> asks for an
  index that is not negative.
\<close>

definition HasPrefix :: "string \<Rightarrow> string \<Rightarrow> bool" where
  "HasPrefix s pre = (length s \<ge> length pre \<and> take (length pre) s = pre)"

definition HasSuffix :: "string \<Rightarrow> string \<Rightarrow> bool" where
  "HasSuffix s suf = (length s \<ge> length suf \<and> drop (length s - length suf) s = suf)"

fun Index :: "string \<Rightarrow> string \<Rightarrow> int" where
  "Index s substr =
     (if HasPrefix s substr then 0
      else case s of
        [] \<Rightarrow> -1
      | _ # t \<Rightarrow> (let i = Index t substr in if i < 0 then -1 else i + 1))"

declare Index.simps [simp del]

definition Contains :: "string \<Rightarrow> string \<Rightarrow> bool" where
  "Contains s substr = (Index s substr \<ge> 0)"

text \<open>
  A value of Go's interface type \<^verbatim>\<open>error\<close> is \<open>nil\<close> (\<open>None\<close>) or an error. The classifier
  tells three kinds apart: the sentinel \<^verbatim>\<open>io.EOF\<close> (compared by identity), an error that
  implements \<^verbatim>\<open>net.Error\<close> (with the answer of its \<^verbatim>\<open>Timeout()\<close>), and any other error.
  \<open>Error\<close> is the message, \<^verbatim>\<open>err.Error()\<close>.
\<close>

datatype goerror =
    EOF
  | NetError string bool
  | Err string

fun Error :: "goerror \<Rightarrow> string" where
  "Error EOF = ''EOF''"
| "Error (NetError msg _) = msg"
| "Error (Err msg) = msg"

text \<open>\<^verbatim>\<open>errors.New(format, err)\<close> of the callers: a fresh error whose message is the prefix
  followed by the message of the cause.\<close>

definition errors_New :: "string \<Rightarrow> goerror \<Rightarrow> goerror" where
  "errors_New pre cause = Err (pre @ Error cause)"

subsection \<open>isUnexpected (proxy\_http.go, 387--409)\<close>

definition isUnexpected :: "goerror option \<Rightarrow> bool" where
  "isUnexpected err =
     (case err of
        None \<Rightarrow> False
      | Some e \<Rightarrow>
          if e = EOF then False
          else if (case e of NetError _ timeout \<Rightarrow> timeout | _ \<Rightarrow> False) then False
          else
            let text = Error e in
              \<not> HasSuffix text ''EOF'' \<and>
              \<not> Contains text ''i/o timeout'' \<and>
              \<not> Contains text ''Use of idled network connection'' \<and>
              \<not> Contains text ''use of closed network connection'' \<and>
              \<not> Contains text ''broken pipe'' \<and>
              \<not> Contains text ''connection reset by peer'')"

section \<open>Header hygiene (proxy\_http.go, 289--385)\<close>

subsection \<open>Canonical header keys\<close>

text \<open>
  The methods of \<^verbatim>\<open>http.Header\<close> pass their key through \<^verbatim>\<open>textproto.CanonicalMIMEHeaderKey\<close>.
  A key all of whose bytes are token bytes (\<^verbatim>\<open>validHeaderFieldByte\<close>) is rewritten: the first
  letter and every letter after a \<^verbatim>\<open>-\<close> in upper case, every other letter in lower case.
  A key with any other byte is returned as it is.
\<close>

definition lowers :: string where
  "lowers = ''abcdefghijklmnopqrstuvwxyz''"

definition uppers :: string where
  "uppers = ''ABCDEFGHIJKLMNOPQRSTUVWXYZ''"

definition validHeaderFieldByte :: "char \<Rightarrow> bool" where
  "validHeaderFieldByte c =
     (c \<in> set (lowers @ uppers @ ''0123456789'' @ ''!#$%&*+-.^_|~'' @ [CHR 0x27, CHR 0x60]))"

definition toUpper :: "char \<Rightarrow> char" where
  "toUpper c = (case map_of (zip lowers uppers) c of None \<Rightarrow> c | Some u \<Rightarrow> u)"

definition toLower :: "char \<Rightarrow> char" where
  "toLower c = (case map_of (zip uppers lowers) c of None \<Rightarrow> c | Some l \<Rightarrow> l)"

fun canonicalLoop :: "bool \<Rightarrow> string \<Rightarrow> string" where
  "canonicalLoop upper [] = []"
| "canonicalLoop upper (c # a) =
     (let c' = (if upper \<and> c \<in> set lowers then toUpper c
                else if \<not> upper \<and> c \<in> set uppers then toLower c
                else c)
      in c' # canonicalLoop (c' = CHR ''-'') a)"

definition CanonicalMIMEHeaderKey :: "string \<Rightarrow> string" where
  "CanonicalMIMEHeaderKey s = (if list_all validHeaderFieldByte s then canonicalLoop True s else s)"

subsection \<open>http.Header\<close>

text \<open>
  \<^verbatim>\<open>http.Header\<close> is a Go map from header names to their lists of values. \<^verbatim>\<open>Add\<close>, \<^verbatim>\<open>Set\<close>,
  \<^verbatim>\<open>Get\<close> and \<^verbatim>\<open>Del\<close> canonicalise the key they are given; indexing the map and ranging
  over it use the keys as they are stored. \<open>canonicalKeys\<close> is the state in which
  \<^verbatim>\<open>http.ReadRequest\<close> and the four methods leave a header: every stored key is canonical.
\<close>

type_synonym header = "string \<rightharpoonup> string list"

definition Header_Add :: "header \<Rightarrow> string \<Rightarrow> string \<Rightarrow> header" where
  "Header_Add h key v =
     (let k = CanonicalMIMEHeaderKey key
      in h(k \<mapsto> (case h k of None \<Rightarrow> [] | Some vs \<Rightarrow> vs) @ [v]))"

definition Header_Set :: "header \<Rightarrow> string \<Rightarrow> string \<Rightarrow> header" where
  "Header_Set h key v = h(CanonicalMIMEHeaderKey key \<mapsto> [v])"

definition Header_Get :: "header \<Rightarrow> string \<Rightarrow> string" where
  "Header_Get h key =
     (case h (CanonicalMIMEHeaderKey key) of None \<Rightarrow> [] | Some [] \<Rightarrow> [] | Some (v # _) \<Rightarrow> v)"

definition Header_Del :: "header \<Rightarrow> string \<Rightarrow> header" where
  "Header_Del h key = h(CanonicalMIMEHeaderKey key := None)"

definition canonicalKeys :: "header \<Rightarrow> bool" where
  "canonicalKeys h = (\<forall>k \<in> dom h. CanonicalMIMEHeaderKey k = k)"

subsection \<open>copyHeadersForForwarding and prepareRequest\<close>

text \<open>
  \<^verbatim>\<open>for k, vv := range src\<close> visits the entries of a map in an order the Go runtime chooses
  afresh on every loop. The order is therefore an input of the model: \<open>order\<close> lists the
  keys as the loop visits them, and \<open>rangeMap order src\<close> is the sequence of entries the
  loop body sees. \<open>rangeOrder\<close> says that \<open>order\<close> is such a visit: every key of the map,
  once.
\<close>

definition rangeMap :: "string list \<Rightarrow> header \<Rightarrow> (string \<times> string list) list" where
  "rangeMap order src = List.map_filter (\<lambda>k. map_option (Pair k) (src k)) order"

definition rangeOrder :: "string list \<Rightarrow> header \<Rightarrow> bool" where
  "rangeOrder order src = (distinct order \<and> set order = dom src)"

fun contains :: "string \<Rightarrow> string list \<Rightarrow> bool" where
  "contains k [] = False"
| "contains k (h # s) = (if k = h then True else contains k s)"

text \<open>
  The loop of \<^verbatim>\<open>copyHeadersForForwarding\<close>: \<open>extraHopByHopHeaders\<close> is the loop's variable
  (nil before the first entry), assigned when the entry \<^verbatim>\<open>Connection\<close> is visited and read
  by the default case of every entry visited after it. The \<^verbatim>\<open>switch\<close> compares the stored
  key with its eight string literals.
\<close>

fun copyHeadersLoop ::
  "header \<Rightarrow> string list \<Rightarrow> (string \<times> string list) list \<Rightarrow> header" where
  "copyHeadersLoop dst extraHopByHopHeaders [] = dst"
| "copyHeadersLoop dst extraHopByHopHeaders ((k, vv) # rest) =
     (if k = ''Connection'' then copyHeadersLoop dst vv rest
      else if k = ''Keep-Alive'' then copyHeadersLoop dst extraHopByHopHeaders rest
      else if k = ''Proxy-Authenticate'' then copyHeadersLoop dst extraHopByHopHeaders rest
      else if k = ''Proxy-Authorization'' then copyHeadersLoop dst extraHopByHopHeaders rest
      else if k = ''TE'' then copyHeadersLoop dst extraHopByHopHeaders rest
      else if k = ''Trailers'' then copyHeadersLoop dst extraHopByHopHeaders rest
      else if k = ''Transfer-Encoding'' then copyHeadersLoop dst extraHopByHopHeaders rest
      else if k = ''Upgrade'' then copyHeadersLoop dst extraHopByHopHeaders rest
      else if \<not> contains k extraHopByHopHeaders
        then copyHeadersLoop (fold (\<lambda>v d. Header_Add d k v) vv dst) extraHopByHopHeaders rest
      else copyHeadersLoop dst extraHopByHopHeaders rest)"

definition copyHeadersForForwarding :: "string list \<Rightarrow> header \<Rightarrow> header \<Rightarrow> header" where
  "copyHeadersForForwarding order dst src = copyHeadersLoop dst [] (rangeMap order src)"

text \<open>
  \<^verbatim>\<open>url.URL\<close> and \<^verbatim>\<open>http.Request\<close>, with the fields the two files read or write. A request
  that reaches the proxy was parsed by \<^verbatim>\<open>http.ReadRequest\<close>, so its \<^verbatim>\<open>URL\<close> is not nil.
  In \<^verbatim>\<open>cloneURL\<close> the copy \<^verbatim>\<open>out := *i\<close> is a copy of a value, which the model has for free.
  \<^verbatim>\<open>req.UserAgent()\<close> is \<^verbatim>\<open>req.Header.Get("User-Agent")\<close>.
\<close>

record url =
  Scheme :: string
  URL_Host :: string
  User :: "string option"

record request =
  Method :: string
  Proto :: string
  ProtoMajor :: int
  ProtoMinor :: int
  Close :: bool
  Header :: header
  Host :: string
  URL :: url
  RemoteAddr :: string

definition cloneURL :: "url \<Rightarrow> url" where
  "cloneURL i = (let out = i in if User i \<noteq> None then out\<lparr>User := User i\<rparr> else out)"

definition UserAgent :: "request \<Rightarrow> string" where
  "UserAgent r = Header_Get (Header r) ''User-Agent''"

definition prepareRequest :: "string list \<Rightarrow> request \<Rightarrow> request" where
  "prepareRequest order req0 =
     (let req = req0\<lparr>Proto := ''HTTP/1.1'', ProtoMajor := 1, ProtoMinor := 1, Close := False\<rparr>;
          newHeader = copyHeadersForForwarding order Map.empty (Header req);
          newHeader = Header_Set newHeader ''Host'' (Host req);
          req = req\<lparr>Header := newHeader\<rparr>;
          req = req\<lparr>URL := cloneURL (URL req)\<rparr>;
          req = (if Scheme (URL req) = [] then req\<lparr>URL := (URL req)\<lparr>Scheme := ''http''\<rparr>\<rparr> else req);
          req = req\<lparr>URL := (URL req)\<lparr>URL_Host := Host req\<rparr>\<rparr>;
          userAgent = UserAgent req
      in if userAgent = []
         then req\<lparr>Header := Header_Del (Header req) ''User-Agent''\<rparr>
         else req\<lparr>Header := Header_Set (Header req) ''User-Agent'' userAgent\<rparr>)"

text \<open>A concrete \<^verbatim>\<open>GET\<close> request with a given header, used below.\<close>

definition requestWith :: "header \<Rightarrow> request" where
  "requestWith h =
     \<lparr>Method = ''GET'', Proto = ''HTTP/1.1'', ProtoMajor = 1, ProtoMinor = 1, Close = False,
      Header = h, Host = ''h'',
      URL = \<lparr>Scheme = ''http'', URL_Host = ''h'', User = None\<rparr>,
      RemoteAddr = ''10.0.0.1:4000''\<rparr>"

text \<open>The fixed hop-by-hop names: the eight string literals of the \<^verbatim>\<open>switch\<close>, whose cases
  copy nothing.\<close>

definition hopByHop :: "string set" where
  "hopByHop = {''Connection'', ''Keep-Alive'', ''Proxy-Authenticate'', ''Proxy-Authorization'',
      ''TE'', ''Trailers'', ''Transfer-Encoding'', ''Upgrade''}"

subsection \<open>The tokens of a Connection header\<close>

text \<open>
  What it means for a header to be named by the \<^verbatim>\<open>Connection\<close> header (RFC 2616, 14.10):
  each value of \<^verbatim>\<open>Connection\<close> is a comma-separated list of tokens, a token has no
  surrounding blanks, and header names are compared without regard to case. This is the
  notion the hop-by-hop rule is about; the code's own test is \<open>contains\<close> above.
\<close>

fun splitComma :: "string \<Rightarrow> string list" where
  "splitComma [] = [[]]"
| "splitComma (c # s) =
     (if c = CHR '','' then [] # splitComma s
      else (case splitComma s of [] \<Rightarrow> [[c]] | t # ts \<Rightarrow> (c # t) # ts))"

definition isBlank :: "char \<Rightarrow> bool" where
  "isBlank c = (c = CHR '' '' \<or> c = CHR 0x09)"

definition trimBlanks :: "string \<Rightarrow> string" where
  "trimBlanks s = rev (dropWhile isBlank (rev (dropWhile isBlank s)))"

definition connectionTokens :: "header \<Rightarrow> string list" where
  "connectionTokens h =
     concat (map (\<lambda>v. map trimBlanks (splitComma v))
       (case h ''Connection'' of None \<Rightarrow> [] | Some vv \<Rightarrow> vv))"

definition namedByConnection :: "header \<Rightarrow> string \<Rightarrow> bool" where
  "namedByConnection h k = (map toLower k \<in> set (map (map toLower) (connectionTokens h)))"

text \<open>\<open>startsLike got vs\<close>: the values \<open>got\<close> found under a key are none at all, or a
  non-empty list that begins as the non-empty list \<open>vs\<close> does.\<close>

definition startsLike :: "string list option \<Rightarrow> string list \<Rightarrow> bool" where
  "startsLike got vs = (case got of None \<Rightarrow> True | Some ws \<Rightarrow> ws \<noteq> [] \<and> vs \<noteq> [] \<and> hd ws = hd vs)"


section \<open>Responses, connections and the outside world\<close>

text \<open>
  \<^verbatim>\<open>http.Response\<close>, with the fields the two files read or write. Its fields \<^verbatim>\<open>ProtoMajor\<close>,
  \<^verbatim>\<open>ProtoMinor\<close>, \<^verbatim>\<open>Header\<close> and \<^verbatim>\<open>Close\<close> carry the prefix \<open>Resp\<close> here, because the request
  record has fields of the same names. \<open>emptyResponse\<close> is the zero value
  \<^verbatim>\<open>http.Response{}\<close>; a nil slice is the empty list.
\<close>

record response =
  StatusCode :: int
  RespProtoMajor :: int
  RespProtoMinor :: int
  RespHeader :: header
  RespClose :: bool
  TransferEncoding :: "string list"
  Request :: "request option"

definition emptyResponse :: response where
  "emptyResponse =
     \<lparr>StatusCode = 0, RespProtoMajor = 0, RespProtoMinor = 0, RespHeader = Map.empty,
      RespClose = False, TransferEncoding = [], Request = None\<rparr>"

definition ProtoAtLeast :: "response \<Rightarrow> int \<Rightarrow> int \<Rightarrow> bool" where
  "ProtoAtLeast r major minor =
     (RespProtoMajor r > major \<or> RespProtoMajor r = major \<and> RespProtoMinor r \<ge> minor)"

text \<open>
  A \<^verbatim>\<open>net.Conn\<close> is a named endpoint, or \<^verbatim>\<open>preconn.Wrap(conn, b)\<close>: the connection with the
  bytes \<open>b\<close> to be read first. The writers that \<^verbatim>\<open>writeResponse\<close> is given or chooses are a
  connection, \<^verbatim>\<open>io.MultiWriter(downstream, buffer)\<close> (the connection and the session's debug
  buffer), and \<^verbatim>\<open>ioutil.Discard\<close>.
\<close>

datatype conn =
    Conn string
  | Preconn conn string

datatype writer =
    Writer conn
  | MultiWriter conn
  | Discard

text \<open>
  What the code does to the outside world is recorded as a trace of events, in the order
  in which it happens: a call of the proxy's dial function, a response handed to
  \<^verbatim>\<open>resp.Write\<close> with the writer it goes to and the error that comes back, the calls of the
  buffer source, the copies of the tunnel, and so on. A buffer is identified by the
  number of the \<^verbatim>\<open>Get\<close> call that handed it out.
\<close>

datatype event =
    EvDial bool string string
  | EvWrite writer response "goerror option"
  | EvLogError string
  | EvClose conn
  | EvMITM conn conn
  | EvHandshake conn
  | EvReadRequest conn
  | EvHandle conn conn string
  | EvGet nat
  | EvPut nat
  | EvCopyBuffer conn string nat "goerror option"
  | EvBidiCopy conn conn nat nat

record world =
  trace :: "event list"
  gets :: nat

definition emit :: "event \<Rightarrow> world \<Rightarrow> world" where
  "emit e w = w\<lparr>trace := trace w @ [e]\<rparr>"

text \<open>\<^verbatim>\<open>BufferSource.Get()\<close> and \<^verbatim>\<open>BufferSource.Put(buf)\<close>.\<close>

definition Get :: "world \<Rightarrow> nat \<times> world" where
  "Get w = (gets w, emit (EvGet (gets w)) (w\<lparr>gets := Suc (gets w)\<rparr>))"

definition Put :: "nat \<Rightarrow> world \<Rightarrow> world" where
  "Put buf w = emit (EvPut buf) w"

subsection \<open>The request context\<close>

text \<open>
  \<^verbatim>\<open>filters.Context\<close> is a \<^verbatim>\<open>context.Context\<close> with a request number: \<^verbatim>\<open>WithValue\<close> derives a
  context in which the key has the value, \<^verbatim>\<open>Value\<close> reads it (nil when it was never set, or
  set to nil). The keys are those of the two files.
\<close>

datatype ctxKey =
    ctxKeyNoRespondOkay
  | ctxKeyUpstreamAddr
  | ctxKeyUpstream
  | ctxKeyOrigURLScheme
  | ctxKeyOrigURLHost
  | ctxKeyOrigHost

datatype ctxValue =
    StringValue string
  | ConnValue conn

record Context =
  bindings :: "ctxKey \<rightharpoonup> ctxValue"
  RequestNumber :: nat

definition WithValue :: "Context \<Rightarrow> ctxKey \<Rightarrow> ctxValue option \<Rightarrow> Context" where
  "WithValue ctx key val = ctx\<lparr>bindings := (bindings ctx)(key := val)\<rparr>"

definition Value :: "Context \<Rightarrow> ctxKey \<Rightarrow> ctxValue option" where
  "Value ctx key = bindings ctx key"

definition IncrementRequestNumber :: "Context \<Rightarrow> Context" where
  "IncrementRequestNumber ctx = ctx\<lparr>RequestNumber := Suc (RequestNumber ctx)\<rparr>"

text \<open>
  Modelled from the spec: the accessors \<^verbatim>\<open>upstreamConn\<close>, \<^verbatim>\<open>upstreamAddr\<close>, \<^verbatim>\<open>origURLScheme\<close>,
  \<^verbatim>\<open>origURLHost\<close> and \<^verbatim>\<open>origHost\<close> are not in the two files. The spec has the context carry
  the upstream connection (once dialed), the upstream address (once known) and the
  original scheme, host and host header; the request loop asks whether an upstream
  address or connection is present. An absent string reads as the empty string, an
  absent connection as nil.
\<close>

definition stringAt :: "Context \<Rightarrow> ctxKey \<Rightarrow> string" where
  "stringAt ctx key = (case Value ctx key of Some (StringValue s) \<Rightarrow> s | _ \<Rightarrow> [])"

definition upstreamAddr :: "Context \<Rightarrow> string" where
  "upstreamAddr ctx = stringAt ctx ctxKeyUpstreamAddr"

definition upstreamConn :: "Context \<Rightarrow> conn option" where
  "upstreamConn ctx = (case Value ctx ctxKeyUpstream of Some (ConnValue c) \<Rightarrow> Some c | _ \<Rightarrow> None)"

definition origURLScheme :: "Context \<Rightarrow> string" where
  "origURLScheme ctx = stringAt ctx ctxKeyOrigURLScheme"

definition origURLHost :: "Context \<Rightarrow> string" where
  "origURLHost ctx = stringAt ctx ctxKeyOrigURLHost"

definition origHost :: "Context \<Rightarrow> string" where
  "origHost ctx = stringAt ctx ctxKeyOrigHost"

subsection \<open>Filters\<close>

text \<open>
  A filter is a function of the context, the request and \<open>next\<close>; \<open>next\<close> is a function
  of a context and a request. Both return a response (or nil), a context and an error
  (or nil), and both may act on the world, so their result type \<open>'a\<close> is, for the proxy,
  a function from the world to the triple and the new world. \<^verbatim>\<open>filters.FilterFunc\<close> turns a
  function into a filter whose \<^verbatim>\<open>Apply\<close> calls it: the identity here.
\<close>

type_synonym ('c, 'q, 'a) filter = "'c \<Rightarrow> 'q \<Rightarrow> ('c \<Rightarrow> 'q \<Rightarrow> 'a) \<Rightarrow> 'a"

type_synonym result = "response option \<times> Context \<times> goerror option"

type_synonym nextfn = "Context \<Rightarrow> request \<Rightarrow> world \<Rightarrow> result \<times> world"

type_synonym proxyfilter = "(Context, request, world \<Rightarrow> result \<times> world) filter"

text \<open>
  Modelled from the spec: \<^verbatim>\<open>filters.Join\<close> is not in the two files. The spec: chains compose
  by \<^verbatim>\<open>Join(outer, inner)\<close>: outer receives a \<open>next\<close> that, when invoked, calls inner.
\<close>

definition Join :: "('c, 'q, 'a) filter \<Rightarrow> ('c, 'q, 'a) filter \<Rightarrow> ('c, 'q, 'a) filter" where
  "Join outer inner = (\<lambda>ctx req next. outer ctx req (\<lambda>ctx' req'. inner ctx' req' next))"

text \<open>
  Modelled from the spec: \<^verbatim>\<open>filters.ShortCircuit\<close> and \<^verbatim>\<open>filters.Fail\<close> are not in the two files.
  The spec: a filter short-circuits by returning a synthesized response without calling
  \<open>next\<close>, and a failing dial returns 502 Bad Gateway via the error path. So
  \<^verbatim>\<open>ShortCircuit\<close> returns the response it is given, the context and no error, and \<^verbatim>\<open>Fail\<close>
  returns a response with the given status, the context and the error. Whatever else the
  two functions fill in (protocol version, headers) is not in the spec; it is the
  parameter \<open>fill\<close>, which the results below hold for whatever it is.
\<close>

definition ShortCircuit ::
  "(request \<Rightarrow> response \<Rightarrow> response) \<Rightarrow> Context \<Rightarrow> request \<Rightarrow> response \<Rightarrow> result" where
  "ShortCircuit fill ctx req resp = (Some ((fill req resp)\<lparr>StatusCode := StatusCode resp\<rparr>), ctx, None)"

definition Fail ::
  "(request \<Rightarrow> response \<Rightarrow> response) \<Rightarrow> Context \<Rightarrow> request \<Rightarrow> int \<Rightarrow> goerror \<Rightarrow> result" where
  "Fail fill ctx req statusCode err =
     (Some ((fill req emptyResponse)\<lparr>StatusCode := statusCode\<rparr>), ctx, Some err)"

subsection \<open>The proxy and its environment\<close>

text \<open>
  The options of the proxy (\<^verbatim>\<open>Opts\<close>, which the \<^verbatim>\<open>proxy\<close> struct embeds) with the fields the
  two files use. \<^verbatim>\<open>Filter\<close> and \<^verbatim>\<open>OnError\<close> may be nil before the defaults are applied.
  \<^verbatim>\<open>Dial\<close> gives the outcome of dialing (its context argument left out); \<^verbatim>\<open>mitmIC.MITM\<close>
  returns the two connections to go on with, whether it intercepts, and an error.
  \<^verbatim>\<open>addIdleKeepAlive\<close> is a method of the proxy that is not in the two files; it receives
  the header of the response and nothing else, so it is a function on headers.
\<close>

record Opts =
  Dial :: "bool \<Rightarrow> string \<Rightarrow> string \<Rightarrow> goerror + conn"
  Filter :: "proxyfilter option"
  OnError :: "(Context \<Rightarrow> request option \<Rightarrow> bool \<Rightarrow> goerror \<Rightarrow> response option) option"
  IdleTimeout :: int
  OKWaitsForUpstream :: bool
  mitmIC :: "(conn \<Rightarrow> conn \<Rightarrow> conn \<times> conn \<times> bool \<times> goerror option) option"
  addIdleKeepAlive :: "header \<Rightarrow> header"

text \<open>
  The outcomes of what the proxy asks of the network, the clock and the Go runtime, as
  functions of what it asks with:
  \<^item> \<open>Now\<close>: \<^verbatim>\<open>time.Now().Format(time.RFC850)\<close>;
  \<^item> \<open>RangeOrder h\<close>: the order in which a \<^verbatim>\<open>range\<close> loop visits the keys of \<open>h\<close>;
  \<^item> \<open>Write out resp\<close>: the error of \<^verbatim>\<open>resp.Write\<close> on that writer;
  \<^item> \<open>Handshake c\<close>: the error of the TLS handshake on \<open>c\<close>;
  \<^item> \<open>ReadRequest c\<close>: the bytes that \<^verbatim>\<open>http.ReadRequest\<close> pulls from \<open>c\<close> while it tries to
    parse the first request of an intercepted tunnel, and its error;
  \<^item> \<open>CopyBuffer dst bytes\<close>: the error of \<^verbatim>\<open>io.CopyBuffer\<close> from a reader of \<open>bytes\<close>;
  \<^item> \<open>BidiCopy up down\<close>: the write error and the read error of \<^verbatim>\<open>netx.BidiCopy\<close>;
  \<^item> \<open>Handle\<close>: the error of the nested session \<^verbatim>\<open>proxy.handle\<close> that takes over an
    intercepted tunnel carrying HTTP;
  \<^item> \<open>Fill\<close>: the parameter of \<open>ShortCircuit\<close> and \<open>Fail\<close> above.
\<close>

record env =
  Now :: string
  RangeOrder :: "header \<Rightarrow> string list"
  Write :: "writer \<Rightarrow> response \<Rightarrow> goerror option"
  Handshake :: "conn \<Rightarrow> goerror option"
  ReadRequest :: "conn \<Rightarrow> string \<times> goerror option"
  CopyBuffer :: "conn \<Rightarrow> string \<Rightarrow> goerror option"
  BidiCopy :: "conn \<Rightarrow> conn \<Rightarrow> goerror option \<times> goerror option"
  Handle :: "Context \<Rightarrow> string \<Rightarrow> conn \<Rightarrow> conn \<Rightarrow> goerror option"
  Fill :: "request \<Rightarrow> response \<Rightarrow> response"

subsection \<open>applyHTTPDefaults (proxy\_http.go, 21--34)\<close>

definition defaultFilter :: "('c, 'q, 'a) filter" where
  "defaultFilter ctx req next = next ctx req"

definition defaultOnError ::
  "Context \<Rightarrow> request option \<Rightarrow> bool \<Rightarrow> goerror \<Rightarrow> response option" where
  "defaultOnError ctx req read err = None"

text \<open>The function literal of lines 30--32, the filter joined in front when
  \<^verbatim>\<open>IdleTimeout > 0\<close>.\<close>

definition idleTimeoutFilter :: "('c, 'q, 'a) filter" where
  "idleTimeoutFilter ctx req next = next ctx req"

definition applyHTTPDefaults :: "Opts \<Rightarrow> Opts" where
  "applyHTTPDefaults opts0 =
     (let opts = (if Filter opts0 = None then opts0\<lparr>Filter := Some defaultFilter\<rparr> else opts0);
          opts = (if OnError opts = None then opts\<lparr>OnError := Some defaultOnError\<rparr> else opts)
      in if IdleTimeout opts > 0
         then (case Filter opts of
                 Some f \<Rightarrow> opts\<lparr>Filter := Some (Join idleTimeoutFilter f)\<rparr>
               | None \<Rightarrow> opts)
         else opts)"

section \<open>Writing responses (proxy\_http.go, 259--339)\<close>

definition prepareResponse :: "env \<Rightarrow> response \<Rightarrow> bool \<Rightarrow> response" where
  "prepareResponse env resp0 belowHTTP11 =
     (let origHeader = RespHeader resp0;
          resp = resp0\<lparr>RespHeader :=
                   copyHeadersForForwarding (RangeOrder env origHeader) Map.empty origHeader\<rparr>;
          resp = (if Header_Get (RespHeader resp) ''Date'' = []
                  then resp\<lparr>RespHeader := Header_Set (RespHeader resp) ''Date'' (Now env)\<rparr>
                  else resp)
      in if belowHTTP11 then resp\<lparr>TransferEncoding := []\<rparr> else resp)"

text \<open>
  \<^verbatim>\<open>writeResponse\<close>. The response handed to \<^verbatim>\<open>resp.Write\<close>, the writer \<open>out\<close> it goes to and
  the error are one event of the trace. The second writer of the local
  \<^verbatim>\<open>io.MultiWriter(out, &buffer)\<close> only feeds the debug log; the log and the closing of the
  body after a failed write are left out.
\<close>

definition writeResponse ::
  "Opts \<Rightarrow> env \<Rightarrow> writer \<Rightarrow> request option \<Rightarrow> response \<Rightarrow> world \<Rightarrow> goerror option \<times> world" where
  "writeResponse p env downstream req resp0 w =
     (let resp = (if Request resp0 = None then resp0\<lparr>Request := req\<rparr> else resp0);
          out = downstream;
          resp = (if RespProtoMajor resp = 0
                  then resp\<lparr>RespProtoMajor := 1, RespProtoMinor := 1\<rparr>
                  else resp);
          belowHTTP11 = (\<not> ProtoAtLeast resp 1 1);
          (out, resp) =
            (if belowHTTP11 \<and> StatusCode resp < 200
             then (Discard, resp)
             else (let resp = prepareResponse env resp belowHTTP11
                   in (out, resp\<lparr>RespHeader := addIdleKeepAlive p (RespHeader resp)\<rparr>)));
          err = Write env out resp
      in (err, emit (EvWrite out resp err) w))"

section \<open>The CONNECT handler (proxy\_connect.go)\<close>

definition badGateway :: "env \<Rightarrow> Context \<Rightarrow> request \<Rightarrow> goerror \<Rightarrow> result" where
  "badGateway env ctx req err = Fail (Fill env) ctx req 502 err"

text \<open>
  \<^verbatim>\<open>nextCONNECT\<close> returns a closure; the model is the closure applied. \<open>respondOK\<close> is the
  inner closure, which assigns to \<open>resp\<close> and \<open>nextCtx\<close>: it takes their values and returns
  the new ones. The context argument of \<^verbatim>\<open>Dial\<close> is left out, \<^verbatim>\<open>log.Error\<close> is an event.
\<close>

definition nextCONNECT :: "Opts \<Rightarrow> env \<Rightarrow> conn \<Rightarrow> nextfn" where
  "nextCONNECT p env downstream ctx modifiedReq w =
     (let suppressOK = (Value ctx ctxKeyNoRespondOkay \<noteq> None);
          resp = None;
          nextCtx = WithValue ctx ctxKeyUpstreamAddr
                      (Some (StringValue (URL_Host (URL modifiedReq))));
          respondOK = (\<lambda>(resp, nextCtx).
             if \<not> suppressOK
             then (case ShortCircuit (Fill env) nextCtx modifiedReq
                          (emptyResponse\<lparr>StatusCode := 200\<rparr>) of
                     (resp', nextCtx', _) \<Rightarrow> (resp', nextCtx'))
             else (resp, nextCtx))
      in if \<not> OKWaitsForUpstream p
         then (case respondOK (resp, nextCtx) of
                 (resp, nextCtx) \<Rightarrow> ((resp, nextCtx, None), w))
         else
           (let w = emit (EvDial True ''tcp'' (URL_Host (URL modifiedReq))) w
            in case Dial p True ''tcp'' (URL_Host (URL modifiedReq)) of
                 Inl err \<Rightarrow>
                   if OKWaitsForUpstream p
                   then (badGateway env ctx modifiedReq err, w)
                   else ((None, ctx, Some err), emit (EvLogError (Error err)) w)
               | Inr upstream \<Rightarrow>
                   (case respondOK (resp, nextCtx) of
                      (resp, nextCtx) \<Rightarrow>
                        ((resp, WithValue nextCtx ctxKeyUpstream (Some (ConnValue upstream)), None),
                         w))))"

text \<open>
  \<^verbatim>\<open>maxHTTPSize = 2 << 15\<close>. \<^verbatim>\<open>reconn.Wrap(conn, limit)\<close> is a replayable reader from another
  library: it keeps what it has delivered, up to \<open>limit\<close> bytes, and \<^verbatim>\<open>Rereader()\<close> returns
  a reader of the bytes delivered so far, or an error when more than \<open>limit\<close> were.
\<close>

definition maxHTTPSize :: nat where
  "maxHTTPSize = 2 * 2 ^ 15"

definition Rereader :: "nat \<Rightarrow> string \<Rightarrow> goerror + string" where
  "Rereader limit delivered =
     (if length delivered > limit then Inl (Err ''overflowed'') else Inr delivered)"

text \<open>
  Lines 164--186 of \<^verbatim>\<open>proceedWithConnect\<close>: the two buffers, the replay of \<open>rr\<close> when it is
  not nil, the bidirectional copy and the classification of its two errors. The two
  deferred \<^verbatim>\<open>Put\<close> calls run when the function returns, last deferred first.
\<close>

definition pipeData ::
  "env \<Rightarrow> string option \<Rightarrow> conn \<Rightarrow> conn \<Rightarrow> world \<Rightarrow> goerror option \<times> world" where
  "pipeData env rr upstream downstream w =
     (case Get w of (bufOut, w) \<Rightarrow>
      case Get w of (bufIn, w) \<Rightarrow>
      case (case (case rr of
                    Some replay \<Rightarrow>
                      (CopyBuffer env upstream replay,
                       emit (EvCopyBuffer upstream replay bufOut (CopyBuffer env upstream replay)) w)
                  | None \<Rightarrow> (None, w)) of
              (Some copyErr, w) \<Rightarrow>
                (Some (errors_New ''Error copying initial data to upstream: '' copyErr), w)
            | (None, w) \<Rightarrow>
                (case BidiCopy env upstream downstream of (writeErr, readErr) \<Rightarrow>
                   (if isUnexpected readErr
                    then map_option (errors_New ''Error piping data to downstream: '') readErr
                    else if isUnexpected writeErr
                    then map_option (errors_New ''Error piping data to upstream: '') writeErr
                    else None,
                    emit (EvBidiCopy upstream downstream bufOut bufIn) w))) of
        (r, w) \<Rightarrow> (r, Put bufOut (Put bufIn w)))"

text \<open>
  Lines 120--186: what runs after the upstream connection is there and its \<^verbatim>\<open>Close\<close> is
  deferred. The result carries the value of the variable \<open>upstream\<close> at the return, which
  is the connection the deferred function closes. When the intercepted tunnel carries
  HTTP, \<^verbatim>\<open>proxy.handle\<close> takes the connection over as a session of its own: the model
  records the call and takes its error from the environment.
\<close>

definition tunnel ::
  "Opts \<Rightarrow> env \<Rightarrow> Context \<Rightarrow> string \<Rightarrow> conn \<Rightarrow> conn \<Rightarrow> world
     \<Rightarrow> goerror option \<times> conn \<times> world" where
  "tunnel p env ctx addr upstream downstream w =
     (case mitmIC p of
        None \<Rightarrow>
          (case pipeData env None upstream downstream w of (r, w) \<Rightarrow> (r, upstream, w))
      | Some MITM \<Rightarrow>
          (case MITM downstream upstream of (downstreamMITM, upstreamMITM, mitming, err) \<Rightarrow>
           let w = emit (EvMITM downstream upstream) w in
           case err of
             Some e \<Rightarrow>
               (Some (errors_New ''Unable to MITM connection: '' e), upstream,
                emit (EvLogError (''Unable to MITM '' @ addr @ '': '' @ Error e)) w)
           | None \<Rightarrow>
               (case (if mitming
                      then (Handshake env upstreamMITM, emit (EvHandshake upstreamMITM) w)
                      else (None, w)) of
                  (Some handshakeErr, w) \<Rightarrow>
                    (Some handshakeErr, upstreamMITM,
                     emit (EvLogError (''HandshakeErr: '' @ Error handshakeErr)) w)
                | (None, w) \<Rightarrow>
                    if mitming
                    then
                      (case ReadRequest env downstreamMITM of (delivered, peekReqErr) \<Rightarrow>
                       let w = emit (EvReadRequest downstreamMITM) w in
                       case Rereader maxHTTPSize delivered of
                         Inl rrErr \<Rightarrow>
                           (Some (errors_New ''Unable to re-read data: '' rrErr), upstreamMITM, w)
                       | Inr rr \<Rightarrow>
                           if peekReqErr = None
                           then
                             (let ctx = WithValue (WithValue ctx ctxKeyUpstream None)
                                          ctxKeyUpstreamAddr None
                              in (Handle env ctx rr downstreamMITM upstreamMITM, upstreamMITM,
                                  emit (EvHandle downstreamMITM upstreamMITM rr) w))
                           else
                             (case pipeData env (Some rr) upstreamMITM downstreamMITM w of
                                (r, w) \<Rightarrow> (r, upstreamMITM, w)))
                    else
                      (case pipeData env None upstreamMITM downstreamMITM w of
                         (r, w) \<Rightarrow> (r, upstreamMITM, w)))))"

definition proceedWithConnect ::
  "Opts \<Rightarrow> env \<Rightarrow> Context \<Rightarrow> string \<Rightarrow> conn option \<Rightarrow> conn \<Rightarrow> world
     \<Rightarrow> goerror option \<times> world" where
  "proceedWithConnect p env ctx addr upstream0 downstream w =
     (case (case upstream0 of
              None \<Rightarrow> (Dial p True ''tcp'' addr, emit (EvDial True ''tcp'' addr) w)
            | Some upstream \<Rightarrow> (Inr upstream, w)) of
        (Inl dialErr, w) \<Rightarrow> (Some dialErr, w)
      | (Inr upstream, w) \<Rightarrow>
          (case tunnel p env ctx addr upstream downstream w of
             (r, upstream, w) \<Rightarrow> (r, emit (EvClose upstream) w)))"

section \<open>The request loop (proxy\_http.go, 150--226)\<close>

text \<open>Lines 156--164: scheme, host and host header that the request lacks are filled in
  from the context.\<close>

definition backfillRequest :: "Context \<Rightarrow> request \<Rightarrow> request" where
  "backfillRequest ctx req0 =
     (let req = (if Scheme (URL req0) = []
                 then req0\<lparr>URL := (URL req0)\<lparr>Scheme := origURLScheme ctx\<rparr>\<rparr> else req0);
          req = (if URL_Host (URL req) = []
                 then req\<lparr>URL := (URL req)\<lparr>URL_Host := origURLHost ctx\<rparr>\<rparr> else req)
      in if Host req = [] then req\<lparr>Host := origHost ctx\<rparr> else req)"

text \<open>
  One pass through the body of the \<^verbatim>\<open>for\<close> loop, lines 156--206: it returns from
  \<^verbatim>\<open>processRequests\<close> (\<open>Returned\<close>), or panics on a nil \<^verbatim>\<open>Filter\<close> or \<^verbatim>\<open>OnError\<close>, or goes on
  to read the next request (\<open>ReadNext\<close>, with the context, the error and the downstream
  connection as the pass leaves them). \<open>buffered\<close> are the bytes the buffered reader holds
  beyond the request. The call of \<^verbatim>\<open>proceedWithConnect\<close> at line 194 passes \<^verbatim>\<open>req\<close> as
  well, which the function in \<^verbatim>\<open>proxy_connect.go\<close> does not take; the model passes the
  other four.
\<close>

datatype step =
    Returned "goerror option"
  | Panicked string
  | ReadNext Context "goerror option" conn

definition serveRequest ::
  "Opts \<Rightarrow> env \<Rightarrow> Context \<Rightarrow> request \<Rightarrow> conn \<Rightarrow> string \<Rightarrow> nextfn \<Rightarrow> world \<Rightarrow> step \<times> world" where
  "serveRequest p env ctx0 req0 downstream buffered next w =
     (let req = backfillRequest ctx0 req0 in
      case Filter p of
        None \<Rightarrow> (Panicked ''nil Filter'', w)
      | Some Apply \<Rightarrow>
          (case Apply ctx0 req next w of ((resp, ctx, err), w) \<Rightarrow>
           case (case (err, resp) of
                   (Some e, None) \<Rightarrow>
                     (case OnError p of
                        None \<Rightarrow> Inl ''nil OnError''
                      | Some onError \<Rightarrow> Inr (onError ctx (Some req) False e))
                 | _ \<Rightarrow> Inr resp) of
             Inl msg \<Rightarrow> (Panicked msg, w)
           | Inr resp \<Rightarrow>
               (case (case resp of
                        None \<Rightarrow> (None, w)
                      | Some r \<Rightarrow> writeResponse p env (MultiWriter downstream) (Some req) r w) of
                  (Some writeErr, w) \<Rightarrow>
                    if isUnexpected (Some writeErr)
                    then (Returned (Some (errors_New
                            ''Unable to write response to downstream: '' writeErr)), w)
                    else (Returned err, w)
                | (None, w) \<Rightarrow>
                    (let upstream = upstreamConn ctx;
                         addr = upstreamAddr ctx;
                         isConnect = (upstream \<noteq> None \<or> addr \<noteq> []);
                         downstream = (if length buffered > 0
                                       then Preconn downstream buffered else downstream)
                     in if isConnect
                        then (case proceedWithConnect p env ctx addr upstream downstream w of
                                (r, w) \<Rightarrow> (Returned r, w))
                        else if Close req then (Returned err, w)
                        else if err = None \<and> (case resp of Some r \<Rightarrow> RespClose r | None \<Rightarrow> False)
                        then (Returned err, w)
                        else (ReadNext ctx err downstream, w)))))"

text \<open>
  The loop. \<open>reads\<close> are the outcomes of the calls of \<^verbatim>\<open>http.ReadRequest\<close> still to come on
  this connection, each with the bytes left in the buffered reader after it; when the
  list is used up the client has closed and \<^verbatim>\<open>ReadRequest\<close> returns \<^verbatim>\<open>io.EOF\<close>, which is not
  unexpected. A panic leaves the function (\<^verbatim>\<open>Handle\<close> recovers it).
\<close>

datatype 'a outcome =
    Return 'a
  | Panic string

fun processRequests ::
  "Opts \<Rightarrow> env \<Rightarrow> Context \<Rightarrow> string \<Rightarrow> request \<Rightarrow> conn \<Rightarrow> string
     \<Rightarrow> ((goerror + request) \<times> string) list \<Rightarrow> nextfn \<Rightarrow> world
     \<Rightarrow> goerror option outcome \<times> world" where
  "processRequests p env ctx remoteAddr req downstream buffered reads next w =
     (case serveRequest p env ctx req downstream buffered next w of
        (Returned r, w) \<Rightarrow> (Return r, w)
      | (Panicked msg, w) \<Rightarrow> (Panic msg, w)
      | (ReadNext ctx err downstream, w) \<Rightarrow>
          (case reads of
             [] \<Rightarrow> (Return err, w)
           | (Inl readErr, _) # _ \<Rightarrow>
               if isUnexpected (Some readErr)
               then
                 (case OnError p of
                    None \<Rightarrow> (Panic ''nil OnError'', w)
                  | Some onError \<Rightarrow>
                      (case (case onError ctx None True readErr of
                               None \<Rightarrow> w
                             | Some errResp \<Rightarrow>
                                 snd (writeResponse p env (Writer downstream) None errResp w)) of
                         w \<Rightarrow> (Return (Some (errors_New
                                 ''Unable to read next request from downstream: '' readErr)), w)))
               else (Return err, w)
           | (Inr req, buffered) # reads \<Rightarrow>
               processRequests p env (IncrementRequestNumber ctx) remoteAddr
                 (req\<lparr>RemoteAddr := remoteAddr\<rparr>) downstream buffered reads next w))"

declare processRequests.simps [simp del]

section \<open>Concrete configurations\<close>

text \<open>
  A proxy, an environment and a \<^verbatim>\<open>CONNECT\<close> request, at which the results below are
  evaluated. \<open>optsWait\<close> waits for the upstream before it answers and cannot reach the
  origin; \<open>optsEager\<close> answers first and can; \<open>optsMITM\<close> intercepts. In \<open>envQuiet\<close> every
  write and copy succeeds and the intercepted tunnel does not carry HTTP.
\<close>

definition passFilter :: proxyfilter where
  "passFilter = defaultFilter"

definition optsWait :: Opts where
  "optsWait =
     \<lparr>Dial = (\<lambda>isConnect network addr. Inl (Err ''connection refused'')),
      Filter = Some passFilter, OnError = Some defaultOnError, IdleTimeout = 30,
      OKWaitsForUpstream = True, mitmIC = None, addIdleKeepAlive = (\<lambda>h. h)\<rparr>"

definition optsEager :: Opts where
  "optsEager =
     \<lparr>Dial = (\<lambda>isConnect network addr. Inr (Conn addr)),
      Filter = Some passFilter, OnError = Some defaultOnError, IdleTimeout = 0,
      OKWaitsForUpstream = False, mitmIC = None, addIdleKeepAlive = (\<lambda>h. h)\<rparr>"

definition optsMITM :: Opts where
  "optsMITM =
     \<lparr>Dial = (\<lambda>isConnect network addr. Inr (Conn addr)),
      Filter = Some passFilter, OnError = Some defaultOnError, IdleTimeout = 0,
      OKWaitsForUpstream = False,
      mitmIC = Some (\<lambda>downstream upstream. (Conn ''client-tls'', Conn ''origin-tls'', True, None)),
      addIdleKeepAlive = (\<lambda>h. h)\<rparr>"

definition envQuiet :: env where
  "envQuiet =
     \<lparr>Now = ''Sunday, 01-Nov-26 12:00:00 UTC'',
      RangeOrder = (\<lambda>h. []),
      Write = (\<lambda>out resp. None),
      Handshake = (\<lambda>c. None),
      ReadRequest = (\<lambda>c. (''SSH-2.0-x'', Some (Err ''malformed HTTP request''))),
      CopyBuffer = (\<lambda>c replay. None),
      BidiCopy = (\<lambda>up down. (None, Some EOF)),
      Handle = (\<lambda>ctx replay down up. None),
      Fill = (\<lambda>req resp. resp)\<rparr>"

definition envHTTP :: env where
  "envHTTP = envQuiet\<lparr>ReadRequest := (\<lambda>c. (''GET / HTTP/1.1'', None))\<rparr>"

definition envCopyFails :: env where
  "envCopyFails = envQuiet\<lparr>CopyBuffer := (\<lambda>c replay. Some (Err ''write: broken pipe''))\<rparr>"

definition connectRequest :: request where
  "connectRequest =
     \<lparr>Method = ''CONNECT'', Proto = ''HTTP/1.1'', ProtoMajor = 1, ProtoMinor = 1, Close = False,
      Header = [''Host'' \<mapsto> [''example:443'']], Host = ''example:443'',
      URL = \<lparr>Scheme = [], URL_Host = ''example:443'', User = None\<rparr>,
      RemoteAddr = ''10.0.0.1:4000''\<rparr>"

definition background :: Context where
  "background = \<lparr>bindings = Map.empty, RequestNumber = 1\<rparr>"

definition world0 :: world where
  "world0 = \<lparr>trace = [], gets = 0\<rparr>"

section \<open>Reading the trace\<close>

text \<open>
  The events of the buffer source, and tests for the events that tell the paths of
  \<open>proceedWithConnect\<close> apart: the hand-over of an intercepted tunnel to a nested HTTP
  session, a replay of the bytes read so far, a replay that failed, and the
  bidirectional copy.
\<close>

fun isBufferEvent :: "event \<Rightarrow> bool" where
  "isBufferEvent (EvGet buf) = True"
| "isBufferEvent (EvPut buf) = True"
| "isBufferEvent e = False"

definition bufferEvents :: "event list \<Rightarrow> event list" where
  "bufferEvents evs = filter isBufferEvent evs"

fun isHandle :: "event \<Rightarrow> bool" where
  "isHandle (EvHandle downstream upstream replay) = True"
| "isHandle e = False"

fun isCopyBuffer :: "event \<Rightarrow> bool" where
  "isCopyBuffer (EvCopyBuffer dst replay buf err) = True"
| "isCopyBuffer e = False"

fun isFailedCopy :: "event \<Rightarrow> bool" where
  "isFailedCopy (EvCopyBuffer dst replay buf (Some err)) = True"
| "isFailedCopy e = False"

fun isBidiCopy :: "event \<Rightarrow> bool" where
  "isBidiCopy (EvBidiCopy upstream downstream bufOut bufIn) = True"
| "isBidiCopy e = False"

text \<open>The events a call has added to the trace: those of the world after it beyond the
  trace of the world before it.\<close>

definition newEvents :: "world \<Rightarrow> world \<Rightarrow> event list" where
  "newEvents before after = drop (length (trace before)) (trace after)"

text \<open>
  \<open>accounted g evs\<close>: the buffer events among \<open>evs\<close> are the two \<^verbatim>\<open>Get\<close> that hand out the
  buffers \<open>g\<close> and \<open>Suc g\<close> followed by the \<^verbatim>\<open>Put\<close> of each, when \<open>evs\<close> has a replay or a
  bidirectional copy, and none otherwise; there are none when the tunnel was handed
  over; and a failed replay is a replay.
\<close>

definition accounted :: "nat \<Rightarrow> event list \<Rightarrow> bool" where
  "accounted g evs =
     (bufferEvents evs =
        (if list_ex isCopyBuffer evs \<or> list_ex isBidiCopy evs
         then [EvGet g, EvGet (Suc g), EvPut (Suc g), EvPut g] else [])
      \<and> (list_ex isHandle evs \<longrightarrow> bufferEvents evs = [])
      \<and> (list_ex isFailedCopy evs \<longrightarrow> list_ex isCopyBuffer evs))"

section \<open>Properties of the error classifier\<close>

lemma HasPrefix_iff_prefix: "HasPrefix s pre \<longleftrightarrow> prefix pre s"
proof
  assume "HasPrefix s pre"
  then have "take (length pre) s = pre" by (simp add: HasPrefix_def)
  then have "s = pre @ drop (length pre) s" by (metis append_take_drop_id)
  then show "prefix pre s" by (metis prefixI)
next
  assume "prefix pre s"
  then obtain r where "s = pre @ r" by (auto simp: prefix_def)
  then show "HasPrefix s pre" by (simp add: HasPrefix_def)
qed

lemma HasSuffix_iff_suffix: "HasSuffix s suf \<longleftrightarrow> suffix suf s"
proof
  assume h: "HasSuffix s suf"
  then have "drop (length s - length suf) s = suf" by (simp add: HasSuffix_def)
  then have "s = take (length s - length suf) s @ suf" by (metis append_take_drop_id)
  then show "suffix suf s" by (metis suffixI)
next
  assume "suffix suf s"
  then obtain r where "s = r @ suf" by (auto simp: suffix_def)
  then show "HasSuffix s suf" by (simp add: HasSuffix_def)
qed

lemma Index_ge_minus_one: "Index s substr \<ge> -1"
proof (induction s)
  case Nil
  show ?case by (simp add: Index.simps [of "[]"])
next
  case (Cons c t)
  then show ?case by (simp add: Index.simps [of "c # t"] Let_def)
qed

lemma Index_nonneg_iff_sublist: "Index s substr \<ge> 0 \<longleftrightarrow> sublist substr s"
proof (induction s)
  case Nil
  show ?case by (simp add: Index.simps [of "[]"] HasPrefix_iff_prefix)
next
  case (Cons c t)
  have step: "Index (c # t) substr \<ge> 0 \<longleftrightarrow> prefix substr (c # t) \<or> Index t substr \<ge> 0"
    using Index_ge_minus_one [of t substr]
    by (simp add: Index.simps [of "c # t"] HasPrefix_iff_prefix Let_def)
  show ?case
    unfolding step Cons.IH by (simp add: sublist_Cons_right)
qed

lemma Contains_iff_sublist: "Contains s substr \<longleftrightarrow> sublist substr s"
  by (simp add: Contains_def Index_nonneg_iff_sublist)

text \<open>
  Claim C4. \<open>isUnexpected err\<close> is false exactly when \<open>err\<close> is nil, is \<^verbatim>\<open>io.EOF\<close>, is a
  \<^verbatim>\<open>net.Error\<close> whose \<^verbatim>\<open>Timeout()\<close> is true, or has a message that ends in \<^verbatim>\<open>EOF\<close> or contains
  one of the five listed phrases; for every other error it is true. "Ends in" and
  "contains" are the list notions \<^const>\<open>suffix\<close> and \<^const>\<open>sublist\<close>.
\<close>

theorem isUnexpected_false_iff:
  "isUnexpected err = (\<not> (
       err = None
     \<or> err = Some EOF
     \<or> (\<exists>msg. err = Some (NetError msg True))
     \<or> (\<exists>e. err = Some e \<and>
           ( suffix ''EOF'' (Error e)
           \<or> sublist ''i/o timeout'' (Error e)
           \<or> sublist ''use of closed network connection'' (Error e)
           \<or> sublist ''Use of idled network connection'' (Error e)
           \<or> sublist ''broken pipe'' (Error e)
           \<or> sublist ''connection reset by peer'' (Error e)))))"
proof (cases err)
  case None
  then show ?thesis by (simp add: isUnexpected_def)
next
  case (Some e)
  show ?thesis
  proof (cases e)
    case EOF
    with Some show ?thesis by (simp add: isUnexpected_def)
  next
    case (NetError msg timeout)
    with Some show ?thesis
      by (cases timeout)
         (auto simp: isUnexpected_def Let_def HasSuffix_iff_suffix Contains_iff_sublist)
  next
    case (Err msg)
    with Some show ?thesis
      by (auto simp: isUnexpected_def Let_def HasSuffix_iff_suffix Contains_iff_sublist)
  qed
qed

section \<open>Properties of header hygiene\<close>

subsection \<open>Canonical keys\<close>

lemma canonical_names:
  "CanonicalMIMEHeaderKey ''Host'' = ''Host''"
  "CanonicalMIMEHeaderKey ''User-Agent'' = ''User-Agent''"
  "CanonicalMIMEHeaderKey ''Date'' = ''Date''"
  "CanonicalMIMEHeaderKey ''Connection'' = ''Connection''"
  "CanonicalMIMEHeaderKey ''X-Foo'' = ''X-Foo''"
  "CanonicalMIMEHeaderKey ''Accept'' = ''Accept''"
  "CanonicalMIMEHeaderKey ''Te'' = ''Te''"
  "CanonicalMIMEHeaderKey ''TE'' = ''Te''"
  "CanonicalMIMEHeaderKey ''user-agent'' = ''User-Agent''"
  by (simp_all add: CanonicalMIMEHeaderKey_def validHeaderFieldByte_def lowers_def uppers_def
      toUpper_def toLower_def Let_def)

lemma contains_iff_mem: "contains k s \<longleftrightarrow> k \<in> set s"
  by (induction s) auto

lemma Header_Add_canonical:
  "CanonicalMIMEHeaderKey k = k \<Longrightarrow>
     Header_Add h k v = h(k \<mapsto> (case h k of None \<Rightarrow> [] | Some vs \<Rightarrow> vs) @ [v])"
  by (simp add: Header_Add_def)

lemma fold_Header_Add_other:
  "CanonicalMIMEHeaderKey k' \<noteq> k \<Longrightarrow> fold (\<lambda>v d. Header_Add d k' v) vv dst k = dst k"
  by (induction vv arbitrary: dst) (simp_all add: Header_Add_def Let_def)

lemma fold_Header_Add_same:
  "CanonicalMIMEHeaderKey k = k \<Longrightarrow>
   fold (\<lambda>v d. Header_Add d k v) vv dst k =
     (if vv = [] then dst k else Some ((case dst k of None \<Rightarrow> [] | Some ws \<Rightarrow> ws) @ vv))"
proof (induction vv arbitrary: dst)
  case Nil
  show ?case by simp
next
  case (Cons v vv)
  have here: "Header_Add dst k v k = Some ((case dst k of None \<Rightarrow> [] | Some ws \<Rightarrow> ws) @ [v])"
    using Cons.prems by (simp add: Header_Add_canonical)
  show ?case by (simp add: Cons.IH [OF Cons.prems] here split: option.splits)
qed

subsection \<open>The loop\<close>

lemma rangeMap_step:
  "rangeMap (k # ks) src =
     (case src k of None \<Rightarrow> rangeMap ks src | Some vv \<Rightarrow> (k, vv) # rangeMap ks src)"
  by (simp add: rangeMap_def List.map_filter_simps split: option.splits)

lemma rangeMap_set: "set (rangeMap order src) = {(k, vv). k \<in> set order \<and> src k = Some vv}"
proof (induction order)
  case Nil
  show ?case by (simp add: rangeMap_def List.map_filter_simps)
next
  case (Cons k ks)
  show ?case unfolding rangeMap_step using Cons.IH by (auto split: option.splits)
qed

lemma rangeMap_distinct: "distinct order \<Longrightarrow> distinct (map fst (rangeMap order src))"
proof (induction order)
  case Nil
  show ?case by (simp add: rangeMap_def List.map_filter_simps)
next
  case (Cons k ks)
  have "fst ` set (rangeMap ks src) \<subseteq> set ks" by (auto simp: rangeMap_set)
  with Cons show ?case unfolding rangeMap_step by (cases "src k") auto
qed

lemma rangeMap_canonical:
  "canonicalKeys src \<Longrightarrow> \<forall>e \<in> set (rangeMap order src). CanonicalMIMEHeaderKey (fst e) = fst e"
  by (auto simp: rangeMap_set canonicalKeys_def)

lemma copyHeadersLoop_hopByHop:
  assumes "k \<in> hopByHop" and "\<forall>e \<in> set es. CanonicalMIMEHeaderKey (fst e) = fst e"
  shows "copyHeadersLoop dst extra es k = dst k"
  using assms(2)
proof (induction es arbitrary: dst extra)
  case Nil
  show ?case by simp
next
  case (Cons e es)
  obtain k' vv where e: "e = (k', vv)" by (cases e)
  have canon: "CanonicalMIMEHeaderKey k' = k'" using Cons.prems by (simp add: e)
  have rest: "\<And>dst extra. copyHeadersLoop dst extra es k = dst k"
    using Cons.IH Cons.prems by simp
  show ?case
  proof (cases "k' \<in> hopByHop")
    case True
    then show ?thesis using rest by (auto simp: e hopByHop_def)
  next
    case False
    with assms(1) have "CanonicalMIMEHeaderKey k' \<noteq> k" using canon by auto
    then show ?thesis using rest by (simp add: e fold_Header_Add_other)
  qed
qed

lemma copyHeadersLoop_absent:
  assumes "k \<notin> CanonicalMIMEHeaderKey ` fst ` set es"
  shows "copyHeadersLoop dst extra es k = dst k"
  using assms
proof (induction es arbitrary: dst extra)
  case Nil
  show ?case by simp
next
  case (Cons e es)
  obtain k' vv where e: "e = (k', vv)" by (cases e)
  from Cons.prems have ne: "CanonicalMIMEHeaderKey k' \<noteq> k"
    and rest: "k \<notin> CanonicalMIMEHeaderKey ` fst ` set es" by (auto simp: e)
  show ?case using Cons.IH [OF rest] ne by (simp add: e fold_Header_Add_other)
qed

lemma copyHeadersLoop_copies:
  assumes "k \<notin> hopByHop" and "distinct (map fst es)" and "(k, vs) \<in> set es"
    and "\<not> contains k extra"
    and "\<And>vv. (''Connection'', vv) \<in> set es \<Longrightarrow> \<not> contains k vv"
    and "\<forall>e \<in> set es. CanonicalMIMEHeaderKey (fst e) = fst e"
  shows "copyHeadersLoop dst extra es k = fold (\<lambda>v d. Header_Add d k v) vs dst k"
  using assms
proof (induction es arbitrary: dst extra)
  case Nil
  then show ?case by simp
next
  case (Cons e es)
  obtain k' vv where e: "e = (k', vv)" by (cases e)
  have canon': "CanonicalMIMEHeaderKey k' = k'" using Cons.prems(6) by (simp add: e)
  have canonRest: "\<forall>e \<in> set es. CanonicalMIMEHeaderKey (fst e) = fst e"
    using Cons.prems(6) by simp
  have canon: "CanonicalMIMEHeaderKey k = k" using Cons.prems(3,6) by force
  show ?case
  proof (cases "k' = k")
    case True
    from Cons.prems(2) have notin: "k \<notin> fst ` set es" by (simp add: e True)
    have "k \<notin> CanonicalMIMEHeaderKey ` fst ` set es"
    proof
      assume "k \<in> CanonicalMIMEHeaderKey ` fst ` set es"
      then obtain k'' vv'' where m: "(k'', vv'') \<in> set es" and c: "k = CanonicalMIMEHeaderKey k''"
        by auto
      from canonRest m c have "k = k''" by force
      with m notin show False by force
    qed
    note absent = copyHeadersLoop_absent [OF this]
    from notin have "(k, vs) \<notin> set es" by force
    with Cons.prems(3) have vv: "vv = vs" by (simp add: e True)
    have nofix: "k \<noteq> ''Connection''" "k \<noteq> ''Keep-Alive''" "k \<noteq> ''Proxy-Authenticate''"
      "k \<noteq> ''Proxy-Authorization''" "k \<noteq> ''TE''" "k \<noteq> ''Trailers''"
      "k \<noteq> ''Transfer-Encoding''" "k \<noteq> ''Upgrade''"
      using Cons.prems(1) by (auto simp: hopByHop_def)
    show ?thesis
      using Cons.prems(4) nofix by (simp add: e True vv absent)
  next
    case False
    with Cons.prems(3) have mem: "(k, vs) \<in> set es" by (simp add: e)
    from Cons.prems(2) have dist: "distinct (map fst es)" by simp
    have conn: "\<And>vv. (''Connection'', vv) \<in> set es \<Longrightarrow> \<not> contains k vv"
      using Cons.prems(5) by simp
    have head: "k' = ''Connection'' \<Longrightarrow> \<not> contains k vv"
      using Cons.prems(5) [of vv] by (simp add: e)
    have ne: "CanonicalMIMEHeaderKey k' \<noteq> k" using False canon' by simp
    have same: "fold (\<lambda>v d. Header_Add d k v) vs (fold (\<lambda>v d. Header_Add d k' v) vv dst) k
        = fold (\<lambda>v d. Header_Add d k v) vs dst k"
      using ne by (simp add: fold_Header_Add_same [OF canon] fold_Header_Add_other)
    have IH: "\<And>dst extra. \<not> contains k extra \<Longrightarrow>
        copyHeadersLoop dst extra es k = fold (\<lambda>v d. Header_Add d k v) vs dst k"
      using Cons.IH [OF Cons.prems(1) dist mem _ conn canonRest] by blast
    show ?thesis
      using IH Cons.prems(4) head same by (simp add: e)
  qed
qed

text \<open>
  Whatever the loop drops, it invents nothing: when the visited keys are canonical and
  every entry for \<open>k\<close> carries the values \<open>vs\<close>, the values copied under \<open>k\<close> are none, or
  start with the first of \<open>vs\<close> (\<open>startsLike\<close>).
\<close>

lemma copyHeadersLoop_startsLike:
  assumes "CanonicalMIMEHeaderKey k = k"
    and "\<forall>e \<in> set es. CanonicalMIMEHeaderKey (fst e) = fst e"
    and "\<forall>e \<in> set es. fst e = k \<longrightarrow> snd e = vs"
    and "startsLike (dst k) vs"
  shows "startsLike (copyHeadersLoop dst extra es k) vs"
  using assms(2-4)
proof (induction es arbitrary: dst extra)
  case Nil
  then show ?case by simp
next
  case (Cons e es)
  obtain k' vv where e: "e = (k', vv)" by (cases e)
  have canon': "CanonicalMIMEHeaderKey k' = k'" using Cons.prems(1) by (simp add: e)
  have IH: "\<And>dst extra. startsLike (dst k) vs \<Longrightarrow> startsLike (copyHeadersLoop dst extra es k) vs"
    using Cons.IH Cons.prems(1,2) by simp
  have added: "startsLike (fold (\<lambda>v d. Header_Add d k' v) vv dst k) vs"
  proof (cases "k' = k")
    case True
    then have "vv = vs" using Cons.prems(2) by (simp add: e)
    then show ?thesis using Cons.prems(3) True
      by (auto simp: fold_Header_Add_same [OF assms(1)] startsLike_def split: option.splits)
  next
    case False
    then have "CanonicalMIMEHeaderKey k' \<noteq> k" using canon' by simp
    then show ?thesis using Cons.prems(3) by (simp add: fold_Header_Add_other)
  qed
  show ?case
    using IH [of dst, OF Cons.prems(3)]
      IH [of "fold (\<lambda>v d. Header_Add d k' v) vv dst", OF added]
    by (simp add: e)
qed

lemma copyHeadersForForwarding_Get:
  assumes "canonicalKeys src" and "CanonicalMIMEHeaderKey k = k"
  shows "Header_Get (copyHeadersForForwarding order Map.empty src) k = []
       \<or> Header_Get (copyHeadersForForwarding order Map.empty src) k = Header_Get src k"
proof -
  define vs where "vs = (case src k of None \<Rightarrow> [] | Some vs \<Rightarrow> vs)"
  have same: "\<forall>e \<in> set (rangeMap order src). fst e = k \<longrightarrow> snd e = vs"
    by (auto simp: rangeMap_set vs_def)
  have "startsLike (copyHeadersLoop Map.empty [] (rangeMap order src) k) vs"
    by (rule copyHeadersLoop_startsLike [OF assms(2) rangeMap_canonical [OF assms(1)] same])
       (simp_all add: startsLike_def)
  then show ?thesis
    unfolding copyHeadersForForwarding_def Header_Get_def assms(2) startsLike_def vs_def
    by (auto split: option.splits list.splits)
qed

lemma copyHeadersForForwarding_key:
  assumes "rangeOrder order src" and "k \<notin> hopByHop" and "canonicalKeys src"
    and "\<not> contains k (case src ''Connection'' of None \<Rightarrow> [] | Some vv \<Rightarrow> vv)"
  shows "copyHeadersForForwarding order Map.empty src k =
           (case src k of None \<Rightarrow> None | Some [] \<Rightarrow> None | Some (v # vs) \<Rightarrow> Some (v # vs))"
proof (cases "src k")
  case None
  have "k \<notin> CanonicalMIMEHeaderKey ` fst ` set (rangeMap order src)"
  proof
    assume "k \<in> CanonicalMIMEHeaderKey ` fst ` set (rangeMap order src)"
    then obtain k' vv where m: "(k', vv) \<in> set (rangeMap order src)"
      and c: "k = CanonicalMIMEHeaderKey k'" by auto
    from rangeMap_canonical [OF assms(3), of order] m c have "k = k'" by force
    with m None show False by (simp add: rangeMap_set)
  qed
  then show ?thesis by (simp add: copyHeadersForForwarding_def copyHeadersLoop_absent None)
next
  case (Some vs)
  with assms(1) have mem: "(k, vs) \<in> set (rangeMap order src)"
    by (auto simp: rangeMap_set rangeOrder_def)
  have canon: "CanonicalMIMEHeaderKey k = k"
    using rangeMap_canonical [OF assms(3), of order] mem by force
  have dist: "distinct (map fst (rangeMap order src))"
    using assms(1) by (simp add: rangeOrder_def rangeMap_distinct)
  have conn: "\<And>vv. (''Connection'', vv) \<in> set (rangeMap order src) \<Longrightarrow> \<not> contains k vv"
    using assms(4) by (auto simp: rangeMap_set)
  have "copyHeadersForForwarding order Map.empty src k
          = fold (\<lambda>v d. Header_Add d k v) vs Map.empty k"
    unfolding copyHeadersForForwarding_def
    by (rule copyHeadersLoop_copies [OF assms(2) dist mem _ conn rangeMap_canonical [OF assms(3)]])
       simp_all
  then show ?thesis by (simp add: fold_Header_Add_same [OF canon] Some split: list.splits)
qed

subsection \<open>prepareRequest\<close>

lemma prepareRequest_Header:
  "Header (prepareRequest order req) =
     (let h = (copyHeadersForForwarding order Map.empty (Header req))(''Host'' \<mapsto> [Host req]);
          userAgent = Header_Get h ''User-Agent''
      in if userAgent = [] then h(''User-Agent'' := None) else h(''User-Agent'' \<mapsto> [userAgent]))"
  by (simp add: prepareRequest_def Let_def UserAgent_def Header_Set_def Header_Del_def
      canonical_names)

lemma Header_Get_Host_upd:
  "Header_Get (h(''Host'' \<mapsto> x)) ''User-Agent'' = Header_Get h ''User-Agent''"
  by (simp add: Header_Get_def canonical_names)

lemma contains_imp_namedByConnection:
  assumes "h ''Connection'' = Some vv" and "contains ''User-Agent'' vv"
  shows "namedByConnection h ''User-Agent''"
proof -
  have tok: "map trimBlanks (splitComma ''User-Agent'') = [''User-Agent'']"
    by (simp add: trimBlanks_def isBlank_def)
  from assms(2) have "''User-Agent'' \<in> set vv" by (simp add: contains_iff_mem)
  then have "''User-Agent'' \<in> set (connectionTokens h)"
    unfolding connectionTokens_def assms(1) using tok by (auto intro!: bexI [of _ "''User-Agent''"])
  then have "map toLower ''User-Agent'' \<in> map toLower ` set (connectionTokens h)"
    by (rule imageI)
  then show ?thesis unfolding namedByConnection_def set_map .
qed
text \<open>
  The eight names of the \<^verbatim>\<open>switch\<close>, spelled as its string literals spell them, are never
  keys of the prepared request when the incoming keys are canonical.
\<close>

lemma prepareRequest_drops_hopByHop:
  assumes "canonicalKeys (Header req)" and "k \<in> hopByHop"
  shows "Header (prepareRequest order req) k = None"
proof -
  from assms(2) have ne: "k \<noteq> ''Host''" "k \<noteq> ''User-Agent''" by (auto simp: hopByHop_def)
  have "copyHeadersForForwarding order Map.empty (Header req) k = None"
    unfolding copyHeadersForForwarding_def
    by (simp add: copyHeadersLoop_hopByHop [OF assms(2) rangeMap_canonical [OF assms(1)]])
  then show ?thesis using ne by (simp add: prepareRequest_Header Let_def)
qed

text \<open>
  One of the eight literals, \<^verbatim>\<open>TE\<close>, is not in canonical form: a \<^verbatim>\<open>TE\<close> header read from the
  wire is stored under \<^verbatim>\<open>Te\<close>, which no case of the \<^verbatim>\<open>switch\<close> matches, so it is forwarded.
\<close>

lemma prepareRequest_forwards_Te:
  "CanonicalMIMEHeaderKey ''TE'' = ''Te''
   \<and> Header (prepareRequest [''Te''] (requestWith [''Te'' \<mapsto> [''trailers'']])) ''Te''
       = Some [''trailers'']"
  by (simp add: prepareRequest_Header requestWith_def copyHeadersForForwarding_def rangeMap_def
      List.map_filter_simps Header_Add_canonical Header_Get_def canonical_names Let_def)

text \<open>
  A name listed in \<^verbatim>\<open>Connection\<close> is dropped when the loop visits \<^verbatim>\<open>Connection\<close> before it.
\<close>

lemma copyHeadersLoop_drops_listed:
  assumes "contains k extra" and "''Connection'' \<notin> fst ` set es"
    and "\<forall>e \<in> set es. CanonicalMIMEHeaderKey (fst e) = fst e"
  shows "copyHeadersLoop dst extra es k = dst k"
  using assms(2,3)
proof (induction es arbitrary: dst)
  case Nil
  show ?case by simp
next
  case (Cons e es)
  obtain k' vv where e: "e = (k', vv)" by (cases e)
  from Cons.prems have ne: "k' \<noteq> ''Connection''" and rest: "''Connection'' \<notin> fst ` set es"
    and canon': "CanonicalMIMEHeaderKey k' = k'"
    and canonRest: "\<forall>e \<in> set es. CanonicalMIMEHeaderKey (fst e) = fst e"
    by (auto simp: e)
  note IH = Cons.IH [OF rest canonRest]
  show ?case
  proof (cases "k' = k")
    case True
    have "copyHeadersLoop dst extra (e # es) = copyHeadersLoop dst extra es"
      using assms(1) ne by (simp add: e True)
    then show ?thesis using IH by simp
  next
    case False
    then have "CanonicalMIMEHeaderKey k' \<noteq> k" using canon' by simp
    then show ?thesis using IH ne by (simp add: e fold_Header_Add_other)
  qed
qed

text \<open>
  Claim C1. The claim says that no header named by a value of the incoming \<^verbatim>\<open>Connection\<close>
  header is forwarded, in whatever order the source headers are processed. The code
  compares a header's name with the \<^verbatim>\<open>Connection\<close> values seen so far, and with each value
  as a whole. The theorem evaluates \<open>prepareRequest\<close> at three inputs: when \<^verbatim>\<open>X-Foo\<close> is
  visited before \<^verbatim>\<open>Connection: X-Foo\<close> it is forwarded; when it is visited after, it is
  dropped; and with the single value \<^verbatim>\<open>close, X-Foo\<close> (two tokens in one header line) it is
  forwarded in both orders.
\<close>

theorem prepareRequest_forwards_Connection_token:
  "Header (prepareRequest [''X-Foo'', ''Connection'']
      (requestWith [''Connection'' \<mapsto> [''X-Foo''], ''X-Foo'' \<mapsto> [''drop'']])) ''X-Foo''
     = Some [''drop'']
   \<and> Header (prepareRequest [''Connection'', ''X-Foo'']
      (requestWith [''Connection'' \<mapsto> [''X-Foo''], ''X-Foo'' \<mapsto> [''drop'']])) ''X-Foo''
     = None
   \<and> Header (prepareRequest [''Connection'', ''X-Foo'']
      (requestWith [''Connection'' \<mapsto> [''close, X-Foo''], ''X-Foo'' \<mapsto> [''drop'']])) ''X-Foo''
     = Some [''drop'']
   \<and> Header (prepareRequest [''X-Foo'', ''Connection'']
      (requestWith [''Connection'' \<mapsto> [''close, X-Foo''], ''X-Foo'' \<mapsto> [''drop'']])) ''X-Foo''
     = Some [''drop'']"
  by (simp add: prepareRequest_Header requestWith_def copyHeadersForForwarding_def rangeMap_def
      List.map_filter_simps Header_Add_canonical Header_Get_def canonical_names Let_def)

text \<open>
  Claim C7, as stated, at two concrete requests. In the first the incoming \<^verbatim>\<open>User-Agent\<close>
  value is \<^verbatim>\<open>foo\<close>, not empty, and the \<^verbatim>\<open>Connection\<close> header, visited first, names
  \<^verbatim>\<open>User-Agent\<close>: the prepared request has no \<^verbatim>\<open>User-Agent\<close> header, it was not set to the
  incoming value. In the second the header map holds the key \<^verbatim>\<open>user-agent\<close>, which is not
  canonical: \<^verbatim>\<open>req.UserAgent()\<close> finds nothing, the incoming value is empty, and yet the
  prepared request has \<^verbatim>\<open>User-Agent: foo\<close>, because \<^verbatim>\<open>Add\<close> canonicalised the copied key.
\<close>

theorem prepareRequest_UserAgent_counterexample:
  "UserAgent (requestWith [''Connection'' \<mapsto> [''User-Agent''], ''User-Agent'' \<mapsto> [''foo'']]) = ''foo''
   \<and> Header (prepareRequest [''Connection'', ''User-Agent'']
        (requestWith [''Connection'' \<mapsto> [''User-Agent''], ''User-Agent'' \<mapsto> [''foo'']])) ''User-Agent''
       = None
   \<and> UserAgent (requestWith [''user-agent'' \<mapsto> [''foo'']]) = []
   \<and> Header (prepareRequest [''user-agent''] (requestWith [''user-agent'' \<mapsto> [''foo'']])) ''User-Agent''
       = Some [''foo'']"
  by (simp add: prepareRequest_Header requestWith_def copyHeadersForForwarding_def rangeMap_def
      List.map_filter_simps Header_Add_canonical Header_Add_def Header_Get_def UserAgent_def
      canonical_names Let_def)

text \<open>
  Claim C7, amended. In every request that \<open>prepareRequest\<close> produces, the \<^verbatim>\<open>User-Agent\<close>
  header is absent or has exactly one value, which is not empty. For an incoming request
  whose header keys are canonical, that value is the incoming request's \<^verbatim>\<open>User-Agent\<close>
  value (\<^verbatim>\<open>req.UserAgent()\<close>): if the incoming value is empty the header is deleted; if it
  is not empty, and the loop visits every header once, and no token of the incoming
  \<^verbatim>\<open>Connection\<close> header names \<^verbatim>\<open>User-Agent\<close>, the header is set to the incoming value. When
  a \<^verbatim>\<open>Connection\<close> token names \<^verbatim>\<open>User-Agent\<close>, nothing more is said than that the header is
  absent or holds the incoming value.
\<close>

theorem prepareRequest_UserAgent:
  "(Header (prepareRequest order req) ''User-Agent'' = None
      \<or> (\<exists>v. v \<noteq> [] \<and> Header (prepareRequest order req) ''User-Agent'' = Some [v]))
   \<and> (canonicalKeys (Header req) \<longrightarrow>
        (Header (prepareRequest order req) ''User-Agent'' = None
           \<or> Header (prepareRequest order req) ''User-Agent'' = Some [UserAgent req])
      \<and> (UserAgent req = [] \<longrightarrow> Header (prepareRequest order req) ''User-Agent'' = None)
      \<and> (UserAgent req \<noteq> [] \<and> rangeOrder order (Header req)
            \<and> \<not> namedByConnection (Header req) ''User-Agent''
          \<longrightarrow> Header (prepareRequest order req) ''User-Agent'' = Some [UserAgent req]))"
proof -
  let ?copy = "copyHeadersForForwarding order Map.empty (Header req)"
  let ?got = "Header_Get ?copy ''User-Agent''"
  have out: "Header (prepareRequest order req) ''User-Agent''
      = (if ?got = [] then None else Some [?got])"
    by (simp add: prepareRequest_Header Let_def Header_Get_Host_upd)
  have shape: "Header (prepareRequest order req) ''User-Agent'' = None
      \<or> (\<exists>v. v \<noteq> [] \<and> Header (prepareRequest order req) ''User-Agent'' = Some [v])"
    unfolding out by simp
  have rest: "(Header (prepareRequest order req) ''User-Agent'' = None
           \<or> Header (prepareRequest order req) ''User-Agent'' = Some [UserAgent req])
      \<and> (UserAgent req = [] \<longrightarrow> Header (prepareRequest order req) ''User-Agent'' = None)
      \<and> (UserAgent req \<noteq> [] \<and> rangeOrder order (Header req)
            \<and> \<not> namedByConnection (Header req) ''User-Agent''
          \<longrightarrow> Header (prepareRequest order req) ''User-Agent'' = Some [UserAgent req])"
    if canon: "canonicalKeys (Header req)"
  proof -
    have got: "?got = [] \<or> ?got = UserAgent req"
      unfolding UserAgent_def
      by (rule copyHeadersForForwarding_Get [OF canon]) (simp add: canonical_names)
    have either: "Header (prepareRequest order req) ''User-Agent'' = None
           \<or> Header (prepareRequest order req) ''User-Agent'' = Some [UserAgent req]"
      unfolding out using got by auto
    have empty: "UserAgent req = [] \<longrightarrow> Header (prepareRequest order req) ''User-Agent'' = None"
      unfolding out using got by auto
    have set: "Header (prepareRequest order req) ''User-Agent'' = Some [UserAgent req]"
      if ne: "UserAgent req \<noteq> []" and ord: "rangeOrder order (Header req)"
        and unnamed: "\<not> namedByConnection (Header req) ''User-Agent''"
    proof -
      have nohop: "''User-Agent'' \<notin> hopByHop" by (simp add: hopByHop_def)
      have nocontains: "\<not> contains ''User-Agent''
          (case Header req ''Connection'' of None \<Rightarrow> [] | Some vv \<Rightarrow> vv)"
        using unnamed contains_imp_namedByConnection [of "Header req"]
        by (auto split: option.splits)
      have copied: "?copy ''User-Agent'' =
          (case Header req ''User-Agent'' of None \<Rightarrow> None | Some [] \<Rightarrow> None
           | Some (v # vs) \<Rightarrow> Some (v # vs))"
        by (rule copyHeadersForForwarding_key [OF ord nohop canon nocontains])
      have "?got = UserAgent req"
        by (simp add: Header_Get_def canonical_names copied UserAgent_def
            split: option.splits list.splits)
      then show ?thesis unfolding out using ne by simp
    qed
    show ?thesis using either empty set by blast
  qed
  show ?thesis using shape rest by blast
qed

theorem prepareRequest_UserAgent_witness:
  "canonicalKeys [''User-Agent'' \<mapsto> [''curl/8''], ''Accept'' \<mapsto> [''text/html'']]
   \<and> Header (prepareRequest [''User-Agent'', ''Accept'']
      (requestWith [''User-Agent'' \<mapsto> [''curl/8''], ''Accept'' \<mapsto> [''text/html'']])) ''User-Agent''
     = Some [''curl/8'']
   \<and> canonicalKeys [''Accept'' \<mapsto> [''text/html'']]
   \<and> Header (prepareRequest [''Accept''] (requestWith [''Accept'' \<mapsto> [''text/html'']])) ''User-Agent''
     = None"
proof -
  let ?h = "[''User-Agent'' \<mapsto> [''curl/8''], ''Accept'' \<mapsto> [''text/html'']]"
  let ?h' = "[''Accept'' \<mapsto> [''text/html'']]"
  have canon: "canonicalKeys ?h" "canonicalKeys ?h'"
    by (simp_all add: canonicalKeys_def canonical_names)
  have ord: "rangeOrder [''User-Agent'', ''Accept''] ?h"
    by (auto simp: rangeOrder_def)
  have unnamed: "\<not> namedByConnection ?h ''User-Agent''"
    by (simp add: namedByConnection_def connectionTokens_def)
  have ua: "UserAgent (requestWith ?h) = ''curl/8''" "UserAgent (requestWith ?h') = []"
    by (simp_all add: UserAgent_def Header_Get_def requestWith_def canonical_names)
  have hdr: "Header (requestWith ?h) = ?h" "Header (requestWith ?h') = ?h'"
    by (simp_all add: requestWith_def)
  show ?thesis
    using prepareRequest_UserAgent [of "[''User-Agent'', ''Accept'']" "requestWith ?h"]
      prepareRequest_UserAgent [of "[''Accept'']" "requestWith ?h'"]
      canon ord unnamed ua
    unfolding hdr by simp
qed
section \<open>Properties of the filter chain\<close>

lemma Join_idleTimeoutFilter: "Join idleTimeoutFilter F = F"
  by (simp add: Join_def idleTimeoutFilter_def)

text \<open>
  Claim C8. When \<^verbatim>\<open>IdleTimeout > 0\<close>, \<open>applyHTTPDefaults\<close> installs \<open>Join idleTimeoutFilter F\<close>,
  where \<open>F\<close> is the filter of the options, or the default filter when there is none; the
  filter joined in front only calls \<open>next\<close> with the context and the request it was given,
  and the joined chain equals \<open>F\<close>: as a function, and so at every context, request and
  \<open>next\<close>.
\<close>

theorem applyHTTPDefaults_idle_filter_identity:
  assumes "IdleTimeout opts > 0"
    and "F = (case Filter opts of None \<Rightarrow> defaultFilter | Some f \<Rightarrow> f)"
  shows "Filter (applyHTTPDefaults opts) = Some (Join idleTimeoutFilter F)
       \<and> idleTimeoutFilter ctx req next = next ctx req
       \<and> Join idleTimeoutFilter F = F
       \<and> Join idleTimeoutFilter F ctx req next = F ctx req next"
proof -
  have installed: "Filter (applyHTTPDefaults opts) = Some (Join idleTimeoutFilter F)"
    using assms by (cases "Filter opts") (simp_all add: applyHTTPDefaults_def Let_def)
  have passes: "idleTimeoutFilter ctx req next = next ctx req"
    by (simp add: idleTimeoutFilter_def)
  show ?thesis using installed passes by (simp add: Join_idleTimeoutFilter)
qed

theorem applyHTTPDefaults_idle_filter_identity_witness:
  "IdleTimeout optsWait > 0
   \<and> Filter (applyHTTPDefaults optsWait) = Some (Join idleTimeoutFilter passFilter)
   \<and> Join idleTimeoutFilter passFilter = passFilter"
proof -
  have pos: "IdleTimeout optsWait > 0" by (simp add: optsWait_def)
  have F: "passFilter = (case Filter optsWait of None \<Rightarrow> defaultFilter | Some f \<Rightarrow> f)"
    by (simp add: optsWait_def)
  from applyHTTPDefaults_idle_filter_identity [OF pos F] pos show ?thesis by simp
qed
section \<open>Properties of writeResponse\<close>

lemma prepareResponse_fields:
  "StatusCode (prepareResponse env resp below) = StatusCode resp"
  "RespProtoMajor (prepareResponse env resp below) = RespProtoMajor resp"
  "RespProtoMinor (prepareResponse env resp below) = RespProtoMinor resp"
  "TransferEncoding (prepareResponse env resp below) = (if below then [] else TransferEncoding resp)"
  by (simp_all add: prepareResponse_def Let_def)

text \<open>A response with status 200 or more is never discarded, whatever its version: it is
  handed to \<^verbatim>\<open>resp.Write\<close> on the writer that \<open>writeResponse\<close> was given, with its status.\<close>

lemma writeResponse_status_kept:
  assumes "StatusCode resp \<ge> 200"
  shows "\<exists>resp'. StatusCode resp' = StatusCode resp
           \<and> writeResponse p env out req resp w
               = (Write env out resp', emit (EvWrite out resp' (Write env out resp')) w)"
proof -
  let ?r = "if Request resp = None then resp\<lparr>Request := req\<rparr> else resp"
  let ?r1 = "if RespProtoMajor ?r = 0 then ?r\<lparr>RespProtoMajor := 1, RespProtoMinor := 1\<rparr> else ?r"
  let ?p = "prepareResponse env ?r1 (\<not> ProtoAtLeast ?r1 1 1)"
  let ?resp' = "?p\<lparr>RespHeader := addIdleKeepAlive p (RespHeader ?p)\<rparr>"
  have st: "StatusCode ?r1 = StatusCode resp" by simp
  have "writeResponse p env out req resp w
          = (Write env out ?resp', emit (EvWrite out ?resp' (Write env out ?resp')) w)"
    using assms st unfolding writeResponse_def Let_def by simp
  moreover have "StatusCode ?resp' = StatusCode resp"
    by (simp add: prepareResponse_fields)
  ultimately show ?thesis by blast
qed

text \<open>The rule that the claim below is about: a response below HTTP/1.1 with a status
  under 200 goes to \<^verbatim>\<open>ioutil.Discard\<close>, and one with a status of 200 or more has its
  transfer encoding cleared.\<close>

lemma writeResponse_below_HTTP11:
  assumes "RespProtoMajor resp = 1" and "RespProtoMinor resp = 0"
  shows "\<exists>resp'. snd (writeResponse p env out req resp w)
            = emit (EvWrite (if StatusCode resp < 200 then Discard else out) resp'
                      (Write env (if StatusCode resp < 200 then Discard else out) resp')) w
          \<and> (StatusCode resp \<ge> 200 \<longrightarrow> TransferEncoding resp' = [])"
proof -
  let ?r = "if Request resp = None then resp\<lparr>Request := req\<rparr> else resp"
  have below: "\<not> ProtoAtLeast ?r 1 1" "RespProtoMajor ?r \<noteq> 0"
    using assms by (simp_all add: ProtoAtLeast_def)
  show ?thesis
  proof (cases "StatusCode resp < 200")
    case True
    then have "StatusCode ?r < 200" by simp
    then show ?thesis using below True unfolding writeResponse_def Let_def by auto
  next
    case False
    then have "\<not> StatusCode ?r < 200" by simp
    then show ?thesis using below False unfolding writeResponse_def Let_def
      by (auto simp: prepareResponse_fields)
  qed
qed

text \<open>
  Claim C10. A response whose \<^verbatim>\<open>ProtoMajor\<close> is 0 is treated as HTTP/1.1: whatever its
  status, \<open>writeResponse\<close> hands it to \<^verbatim>\<open>resp.Write\<close> on the writer it was given (never on
  \<^verbatim>\<open>ioutil.Discard\<close>), with version 1.1 and with its transfer encoding as it was.
\<close>

theorem writeResponse_ProtoMajor_zero:
  assumes "RespProtoMajor resp = 0"
  shows "\<exists>resp'. writeResponse p env out req resp w
             = (Write env out resp', emit (EvWrite out resp' (Write env out resp')) w)
          \<and> RespProtoMajor resp' = 1 \<and> RespProtoMinor resp' = 1
          \<and> TransferEncoding resp' = TransferEncoding resp
          \<and> StatusCode resp' = StatusCode resp"
proof -
  let ?r = "if Request resp = None then resp\<lparr>Request := req\<rparr> else resp"
  let ?r1 = "?r\<lparr>RespProtoMajor := 1, RespProtoMinor := 1\<rparr>"
  let ?p = "prepareResponse env ?r1 False"
  let ?resp' = "?p\<lparr>RespHeader := addIdleKeepAlive p (RespHeader ?p)\<rparr>"
  have zero: "RespProtoMajor ?r = 0" using assms by simp
  have atLeast: "ProtoAtLeast ?r1 1 1" by (simp add: ProtoAtLeast_def)
  have "writeResponse p env out req resp w
          = (Write env out ?resp', emit (EvWrite out ?resp' (Write env out ?resp')) w)"
    unfolding writeResponse_def Let_def using zero atLeast by simp
  moreover have "RespProtoMajor ?resp' = 1" "RespProtoMinor ?resp' = 1"
    "TransferEncoding ?resp' = TransferEncoding resp" "StatusCode ?resp' = StatusCode resp"
    by (simp_all add: prepareResponse_fields)
  ultimately show ?thesis by blast
qed

theorem writeResponse_ProtoMajor_zero_witness:
  "RespProtoMajor (emptyResponse\<lparr>StatusCode := 100, TransferEncoding := [''chunked'']\<rparr>) = 0
   \<and> (\<exists>resp'. writeResponse optsWait envQuiet (Writer (Conn ''client'')) None
                 (emptyResponse\<lparr>StatusCode := 100, TransferEncoding := [''chunked'']\<rparr>) world0
             = (None, emit (EvWrite (Writer (Conn ''client'')) resp' None) world0)
          \<and> RespProtoMajor resp' = 1 \<and> RespProtoMinor resp' = 1
          \<and> TransferEncoding resp' = [''chunked''] \<and> StatusCode resp' = 100)"
proof -
  let ?resp = "emptyResponse\<lparr>StatusCode := 100, TransferEncoding := [''chunked'']\<rparr>"
  have zero: "RespProtoMajor ?resp = 0" by (simp add: emptyResponse_def)
  have quiet: "\<And>out r. Write envQuiet out r = None" by (simp add: envQuiet_def)
  from writeResponse_ProtoMajor_zero [OF zero, of optsWait envQuiet "Writer (Conn ''client'')" None world0]
  show ?thesis using zero by (simp add: quiet)
qed
section \<open>Properties of the CONNECT handler\<close>

text \<open>
  Claim C9. In \<open>nextCONNECT\<close> the branch that logs and returns the bare dial error
  (no response, the error) is never taken. The world after the call is the world before
  it when the proxy answers first, and otherwise the world before it with the one dial:
  the dial is made only when \<^verbatim>\<open>OKWaitsForUpstream\<close> is true, and nothing is logged. When that
  dial fails the result is that of \<open>badGateway\<close>. No call returns an error without a
  response.
\<close>

theorem nextCONNECT_dial_failure_is_badGateway:
  "snd (nextCONNECT p env downstream ctx req w)
     = (if OKWaitsForUpstream p then emit (EvDial True ''tcp'' (URL_Host (URL req))) w else w)
   \<and> (OKWaitsForUpstream p \<and> Dial p True ''tcp'' (URL_Host (URL req)) = Inl err
        \<longrightarrow> fst (nextCONNECT p env downstream ctx req w) = badGateway env ctx req err)
   \<and> (\<forall>c e. fst (nextCONNECT p env downstream ctx req w) \<noteq> (None, c, Some e))"
proof (cases "OKWaitsForUpstream p")
  case False
  then show ?thesis
    by (simp add: nextCONNECT_def Let_def ShortCircuit_def split: prod.splits)
next
  case True
  show ?thesis
  proof (cases "Dial p True ''tcp'' (URL_Host (URL req))")
    case (Inl dialErr)
    with True show ?thesis
      by (simp add: nextCONNECT_def Let_def badGateway_def Fail_def)
  next
    case (Inr upstream)
    with True show ?thesis
      by (simp add: nextCONNECT_def Let_def ShortCircuit_def split: prod.splits)
  qed
qed

theorem nextCONNECT_dial_failure_is_badGateway_witness:
  "OKWaitsForUpstream optsWait
   \<and> Dial optsWait True ''tcp'' (URL_Host (URL connectRequest)) = Inl (Err ''connection refused'')
   \<and> fst (nextCONNECT optsWait envQuiet (Conn ''client'') background connectRequest world0)
       = badGateway envQuiet background connectRequest (Err ''connection refused'')
   \<and> snd (nextCONNECT optsEager envQuiet (Conn ''client'') background connectRequest world0)
       = world0"
proof -
  have waits: "OKWaitsForUpstream optsWait" "\<not> OKWaitsForUpstream optsEager"
    by (simp_all add: optsWait_def optsEager_def)
  have fails: "Dial optsWait True ''tcp'' (URL_Host (URL connectRequest))
      = Inl (Err ''connection refused'')"
    by (simp add: optsWait_def)
  show ?thesis
    using nextCONNECT_dial_failure_is_badGateway
        [of optsWait envQuiet "Conn ''client''" background connectRequest world0
            "Err ''connection refused''"]
      nextCONNECT_dial_failure_is_badGateway
        [of optsEager envQuiet "Conn ''client''" background connectRequest world0]
      waits fails
    by simp
qed
section \<open>Properties of the tunnel\<close>

lemma trace_emit [simp]: "trace (emit e w) = trace w @ [e]"
  by (simp add: emit_def)

lemma gets_emit [simp]: "gets (emit e w) = gets w"
  by (simp add: emit_def)

lemma newEvents_append [simp]: "trace after = trace before @ evs \<Longrightarrow> newEvents before after = evs"
  by (simp add: newEvents_def)

text \<open>The trace of lines 164--186: two \<^verbatim>\<open>Get\<close>, the replay when there is one, the
  bidirectional copy unless the replay failed, and the two \<^verbatim>\<open>Put\<close> in reverse order.\<close>

lemma pipeData_trace:
  "trace (snd (pipeData env rr upstream downstream w)) =
     trace w @ [EvGet (gets w), EvGet (Suc (gets w))]
       @ (case rr of
            None \<Rightarrow> [EvBidiCopy upstream downstream (gets w) (Suc (gets w))]
          | Some replay \<Rightarrow>
              EvCopyBuffer upstream replay (gets w) (CopyBuffer env upstream replay)
                # (if CopyBuffer env upstream replay = None
                   then [EvBidiCopy upstream downstream (gets w) (Suc (gets w))] else []))
       @ [EvPut (Suc (gets w)), EvPut (gets w)]"
  by (cases rr; cases "BidiCopy env upstream downstream")
     (auto simp: pipeData_def Get_def Put_def split: option.splits)

lemma Rereader_fits: "length delivered \<le> limit \<Longrightarrow> Rereader limit delivered = Inr delivered"
  by (simp add: Rereader_def)

text \<open>
  Claim C5. An intercepted tunnel (\<open>mitming\<close> true, handshake done) whose first bytes do
  not parse as an HTTP request, with no more than \<open>maxHTTPSize\<close> bytes read in the attempt:
  the trace of \<open>proceedWithConnect\<close> is the dial (when no upstream connection was handed
  in), the interception, the handshake, the parse attempt, the two \<^verbatim>\<open>Get\<close>, then the copy of
  all the bytes read in the attempt to the upstream connection, and only after it, and
  only when that copy returned no error, the bidirectional copy; then the two \<^verbatim>\<open>Put\<close> and
  the close.
\<close>

theorem proceedWithConnect_replays_before_piping:
  assumes "upstream0 = Some upstream \<or> upstream0 = None \<and> Dial p True ''tcp'' addr = Inr upstream"
    and "mitmIC p = Some MITM"
    and "MITM downstream upstream = (downstreamMITM, upstreamMITM, True, None)"
    and "Handshake env upstreamMITM = None"
    and "ReadRequest env downstreamMITM = (delivered, Some peekReqErr)"
    and "length delivered \<le> maxHTTPSize"
  shows "trace (snd (proceedWithConnect p env ctx addr upstream0 downstream w)) =
     trace w
       @ (if upstream0 = None then [EvDial True ''tcp'' addr] else [])
       @ [EvMITM downstream upstream, EvHandshake upstreamMITM, EvReadRequest downstreamMITM,
          EvGet (gets w), EvGet (Suc (gets w)),
          EvCopyBuffer upstreamMITM delivered (gets w) (CopyBuffer env upstreamMITM delivered)]
       @ (if CopyBuffer env upstreamMITM delivered = None
          then [EvBidiCopy upstreamMITM downstreamMITM (gets w) (Suc (gets w))] else [])
       @ [EvPut (Suc (gets w)), EvPut (gets w), EvClose upstreamMITM]"
proof -
  have tun: "\<And>w. trace (snd (snd (tunnel p env ctx addr upstream downstream w))) =
      trace w @ [EvMITM downstream upstream, EvHandshake upstreamMITM, EvReadRequest downstreamMITM,
          EvGet (gets w), EvGet (Suc (gets w)),
          EvCopyBuffer upstreamMITM delivered (gets w) (CopyBuffer env upstreamMITM delivered)]
       @ (if CopyBuffer env upstreamMITM delivered = None
          then [EvBidiCopy upstreamMITM downstreamMITM (gets w) (Suc (gets w))] else [])
       @ [EvPut (Suc (gets w)), EvPut (gets w)]"
    and up: "\<And>w. fst (snd (tunnel p env ctx addr upstream downstream w)) = upstreamMITM"
    using assms(2-5) Rereader_fits [OF assms(6)]
    by (simp_all add: tunnel_def Let_def pipeData_trace case_prod_beta)
  from assms(1) show ?thesis
  proof
    assume "upstream0 = Some upstream"
    then show ?thesis
      using tun [of w] up [of w]
      by (simp add: proceedWithConnect_def case_prod_beta)
  next
    assume "upstream0 = None \<and> Dial p True ''tcp'' addr = Inr upstream"
    then show ?thesis
      using tun [of "emit (EvDial True ''tcp'' addr) w"] up [of "emit (EvDial True ''tcp'' addr) w"]
      by (simp add: proceedWithConnect_def case_prod_beta)
  qed
qed

theorem proceedWithConnect_replays_before_piping_witness:
  "trace (snd (proceedWithConnect optsMITM envQuiet background ''example:443'' None
                 (Conn ''client'') world0)) =
     [EvDial True ''tcp'' ''example:443'',
      EvMITM (Conn ''client'') (Conn ''example:443''),
      EvHandshake (Conn ''origin-tls''), EvReadRequest (Conn ''client-tls''),
      EvGet 0, EvGet 1,
      EvCopyBuffer (Conn ''origin-tls'') ''SSH-2.0-x'' 0 None,
      EvBidiCopy (Conn ''origin-tls'') (Conn ''client-tls'') 0 1,
      EvPut 1, EvPut 0, EvClose (Conn ''origin-tls'')]"
proof -
  have up: "None = Some (Conn ''example:443'')
      \<or> None = (None :: conn option) \<and> Dial optsMITM True ''tcp'' ''example:443'' = Inr (Conn ''example:443'')"
    by (simp add: optsMITM_def)
  have mitm: "mitmIC optsMITM
      = Some (\<lambda>downstream upstream. (Conn ''client-tls'', Conn ''origin-tls'', True, None))"
    by (simp add: optsMITM_def)
  have hs: "Handshake envQuiet (Conn ''origin-tls'') = None" by (simp add: envQuiet_def)
  have peek: "ReadRequest envQuiet (Conn ''client-tls'')
      = (''SSH-2.0-x'', Some (Err ''malformed HTTP request''))"
    by (simp add: envQuiet_def)
  have fits: "length ''SSH-2.0-x'' \<le> maxHTTPSize" by (simp add: maxHTTPSize_def)
  have copy: "CopyBuffer envQuiet (Conn ''origin-tls'') ''SSH-2.0-x'' = None"
    by (simp add: envQuiet_def)
  show ?thesis
    using proceedWithConnect_replays_before_piping
      [OF up mitm _ hs peek fits,
        where downstream = "Conn ''client''" and ctx = background and w = world0]
    by (simp add: copy world0_def)
qed

lemma tunnel_accounted:
  "\<exists>evs. trace (snd (snd (tunnel p env ctx addr upstream downstream w))) = trace w @ evs
         \<and> accounted (gets w) evs"
  unfolding tunnel_def Let_def
  by (auto simp: pipeData_trace case_prod_beta accounted_def bufferEvents_def
      split: option.splits sum.splits)

lemma accounted_framed:
  assumes "accounted g evs" and "\<not> isBufferEvent a" "\<not> isCopyBuffer a" "\<not> isBidiCopy a"
    "\<not> isHandle a" "\<not> isFailedCopy a"
    and "\<not> isBufferEvent b" "\<not> isCopyBuffer b" "\<not> isBidiCopy b" "\<not> isHandle b"
    "\<not> isFailedCopy b"
  shows "accounted g (evs @ [b])" and "accounted g (a # evs @ [b])"
  using assms by (auto simp: accounted_def bufferEvents_def)

lemma proceedWithConnect_accounted:
  "\<exists>evs. trace (snd (proceedWithConnect p env ctx addr upstream0 downstream w)) = trace w @ evs
         \<and> accounted (gets w) evs"
proof (cases upstream0)
  case (Some upstream)
  obtain evs where t: "trace (snd (snd (tunnel p env ctx addr upstream downstream w))) = trace w @ evs"
    and a: "accounted (gets w) evs"
    using tunnel_accounted by blast
  let ?close = "EvClose (fst (snd (tunnel p env ctx addr upstream downstream w)))"
  have "trace (snd (proceedWithConnect p env ctx addr upstream0 downstream w))
      = trace w @ (evs @ [?close])"
    by (simp add: proceedWithConnect_def Some case_prod_beta t)
  moreover have "accounted (gets w) (evs @ [?close])"
    by (rule accounted_framed(1) [OF a, where a = ?close]) simp_all
  ultimately show ?thesis by blast
next
  case None
  let ?dial = "EvDial True ''tcp'' addr"
  show ?thesis
  proof (cases "Dial p True ''tcp'' addr")
    case (Inl dialErr)
    have "trace (snd (proceedWithConnect p env ctx addr upstream0 downstream w)) = trace w @ [?dial]"
      by (simp add: proceedWithConnect_def None Inl)
    moreover have "accounted (gets w) [?dial]"
      by (simp add: accounted_def bufferEvents_def)
    ultimately show ?thesis by blast
  next
    case (Inr upstream)
    let ?w = "emit ?dial w"
    obtain evs where t: "trace (snd (snd (tunnel p env ctx addr upstream downstream ?w))) = trace ?w @ evs"
      and a: "accounted (gets ?w) evs"
      using tunnel_accounted by blast
    let ?close = "EvClose (fst (snd (tunnel p env ctx addr upstream downstream ?w)))"
    have "trace (snd (proceedWithConnect p env ctx addr upstream0 downstream w))
        = trace w @ (?dial # evs @ [?close])"
      by (simp add: proceedWithConnect_def None Inr case_prod_beta t)
    moreover have "accounted (gets w) (?dial # evs @ [?close])"
      using a by (intro accounted_framed(2)) simp_all
    ultimately show ?thesis by blast
  qed
qed

text \<open>
  Claim C6. Whatever the outcome of every call it makes, the events that
  \<open>proceedWithConnect\<close> adds to the trace contain either no event of the buffer source,
  or exactly \<^verbatim>\<open>Get\<close>, \<^verbatim>\<open>Get\<close>, \<^verbatim>\<open>Put\<close> of the second buffer, \<^verbatim>\<open>Put\<close> of the first: the latter on
  every path that reaches the replay or the bidirectional copy, the former on every
  other. In particular: no buffer is taken when the tunnel is handed over to a nested
  HTTP session; two are taken and both returned when the replay fails; and two are taken
  and both returned when the bidirectional copy has run.
\<close>

theorem proceedWithConnect_buffers_returned:
  "\<exists>evs. trace (snd (proceedWithConnect p env ctx addr upstream0 downstream w)) = trace w @ evs
     \<and> bufferEvents evs =
         (if list_ex isCopyBuffer evs \<or> list_ex isBidiCopy evs
          then [EvGet (gets w), EvGet (Suc (gets w)), EvPut (Suc (gets w)), EvPut (gets w)]
          else [])
     \<and> (list_ex isHandle evs \<longrightarrow> bufferEvents evs = [])
     \<and> (list_ex isFailedCopy evs \<longrightarrow>
          bufferEvents evs = [EvGet (gets w), EvGet (Suc (gets w)), EvPut (Suc (gets w)), EvPut (gets w)])
     \<and> (list_ex isBidiCopy evs \<longrightarrow>
          bufferEvents evs = [EvGet (gets w), EvGet (Suc (gets w)), EvPut (Suc (gets w)), EvPut (gets w)])"
proof -
  obtain evs where t: "trace (snd (proceedWithConnect p env ctx addr upstream0 downstream w)) = trace w @ evs"
    and a: "accounted (gets w) evs"
    using proceedWithConnect_accounted by blast
  let ?four = "[EvGet (gets w), EvGet (Suc (gets w)), EvPut (Suc (gets w)), EvPut (gets w)]"
  have count: "bufferEvents evs =
      (if list_ex isCopyBuffer evs \<or> list_ex isBidiCopy evs then ?four else [])"
    using a unfolding accounted_def by (rule conjunct1)
  have handed: "list_ex isHandle evs \<longrightarrow> bufferEvents evs = []"
    using a unfolding accounted_def by blast
  have isCopy: "list_ex isFailedCopy evs \<longrightarrow> list_ex isCopyBuffer evs"
    using a unfolding accounted_def by blast
  have failed: "list_ex isFailedCopy evs \<longrightarrow> bufferEvents evs = ?four"
  proof
    assume "list_ex isFailedCopy evs"
    with isCopy have "list_ex isCopyBuffer evs" by blast
    then show "bufferEvents evs = ?four" unfolding count by simp
  qed
  have piped: "list_ex isBidiCopy evs \<longrightarrow> bufferEvents evs = ?four"
  proof
    assume "list_ex isBidiCopy evs"
    then show "bufferEvents evs = ?four" unfolding count by simp
  qed
  show ?thesis
    by (rule exI [of _ evs]) (intro conjI t count handed failed piped)
qed

lemma trace_handed_over:
  "trace (snd (proceedWithConnect optsMITM envHTTP background ''example:443'' None
                 (Conn ''client'') world0)) =
     [EvDial True ''tcp'' ''example:443'',
      EvMITM (Conn ''client'') (Conn ''example:443''),
      EvHandshake (Conn ''origin-tls''), EvReadRequest (Conn ''client-tls''),
      EvHandle (Conn ''client-tls'') (Conn ''origin-tls'') ''GET / HTTP/1.1'',
      EvClose (Conn ''origin-tls'')]"
  by (simp add: proceedWithConnect_def tunnel_def optsMITM_def envHTTP_def envQuiet_def
      Rereader_def maxHTTPSize_def world0_def Let_def)

lemma trace_replay_fails:
  "trace (snd (proceedWithConnect optsMITM envCopyFails background ''example:443'' None
                 (Conn ''client'') world0)) =
     [EvDial True ''tcp'' ''example:443'',
      EvMITM (Conn ''client'') (Conn ''example:443''),
      EvHandshake (Conn ''origin-tls''), EvReadRequest (Conn ''client-tls''),
      EvGet 0, EvGet 1,
      EvCopyBuffer (Conn ''origin-tls'') ''SSH-2.0-x'' 0 (Some (Err ''write: broken pipe'')),
      EvPut 1, EvPut 0, EvClose (Conn ''origin-tls'')]"
  by (simp add: proceedWithConnect_def tunnel_def optsMITM_def envCopyFails_def envQuiet_def
      Rereader_def maxHTTPSize_def world0_def Let_def pipeData_trace case_prod_beta)

lemma trace_plain_tunnel:
  "trace (snd (proceedWithConnect optsEager envQuiet background ''example:443'' None
                 (Conn ''client'') world0)) =
     [EvDial True ''tcp'' ''example:443'', EvGet 0, EvGet 1,
      EvBidiCopy (Conn ''example:443'') (Conn ''client'') 0 1,
      EvPut 1, EvPut 0, EvClose (Conn ''example:443'')]"
  by (simp add: proceedWithConnect_def tunnel_def optsEager_def envQuiet_def world0_def Let_def
      pipeData_trace case_prod_beta)

theorem proceedWithConnect_buffers_returned_witness:
  "bufferEvents (trace (snd (proceedWithConnect optsMITM envHTTP background ''example:443'' None
                 (Conn ''client'') world0))) = []
   \<and> bufferEvents (trace (snd (proceedWithConnect optsMITM envCopyFails background
                 ''example:443'' None (Conn ''client'') world0)))
       = [EvGet 0, EvGet 1, EvPut 1, EvPut 0]
   \<and> bufferEvents (trace (snd (proceedWithConnect optsEager envQuiet background
                 ''example:443'' None (Conn ''client'') world0)))
       = [EvGet 0, EvGet 1, EvPut 1, EvPut 0]"
proof -
  have w0: "trace world0 = []" "gets world0 = 0" by (simp_all add: world0_def)
  have handed: "bufferEvents (trace (snd (proceedWithConnect optsMITM envHTTP background
      ''example:443'' None (Conn ''client'') world0))) = []"
    using proceedWithConnect_buffers_returned
      [of optsMITM envHTTP background "''example:443''" None "Conn ''client''" world0]
    unfolding w0 trace_handed_over by auto
  have failed: "bufferEvents (trace (snd (proceedWithConnect optsMITM envCopyFails background
      ''example:443'' None (Conn ''client'') world0))) = [EvGet 0, EvGet 1, EvPut 1, EvPut 0]"
    using proceedWithConnect_buffers_returned
      [of optsMITM envCopyFails background "''example:443''" None "Conn ''client''" world0]
    unfolding w0 trace_replay_fails by auto
  have piped: "bufferEvents (trace (snd (proceedWithConnect optsEager envQuiet background
      ''example:443'' None (Conn ''client'') world0))) = [EvGet 0, EvGet 1, EvPut 1, EvPut 0]"
    using proceedWithConnect_buffers_returned
      [of optsEager envQuiet background "''example:443''" None "Conn ''client''" world0]
    unfolding w0 trace_plain_tunnel by auto
  show ?thesis using handed failed piped by simp
qed

end
